theory Spec2Isabelle
  imports Complex_Main
begin

section \<open>Pair statistics of particles in a periodic box\<close>

text \<open>
  A shallow embedding of \<^verbatim>\<open>spatialstats/particles/particle_correlations.py\<close> and
  \<^verbatim>\<open>spatialstats/particles/particle_cloud.py\<close>. NumPy's float64 values are
  idealised as real numbers; a one-dimensional array is a list, an array of shape
  \<open>(N, ndim)\<close> is a list of rows.
\<close>

subsection \<open>Volume elements\<close>

text \<open>
  \<^verbatim>\<open>_get_volume(count, r, phi, theta, ndim)\<close> is the same function in both modules.
  The three nested loops write every cell of \<^verbatim>\<open>vol\<close> once. The argument
  \<^verbatim>\<open>count\<close> (the histogram) is accepted and never read.
\<close>

definition get_volume ::
  "real list \<Rightarrow> real list \<Rightarrow> real list \<Rightarrow> real list \<Rightarrow> nat \<Rightarrow> real list list list" where
  "get_volume count r phi theta ndim =
     map (\<lambda>n. let dr = ((r ! (n + 1)) ^ ndim - (r ! n) ^ ndim) / real ndim in
       map (\<lambda>m. let dphi = phi ! (m + 1) - phi ! m in
         map (\<lambda>l. if ndim = 3
                    then (dphi * dr) * (cos (theta ! l) - cos (theta ! (l + 1)))
                    else dphi * dr)
             [0..<length theta - 1])
           [0..<length phi - 1])
         [0..<length r - 1]"

subsection \<open>Periodic boundary conditions\<close>

text \<open>
  \<^verbatim>\<open>_impose_pbc(coords, boxsize)\<close>, the same in both modules, overwrites the rows of
  \<^verbatim>\<open>coords\<close> in place; the model returns the array as it is after the call. Each of
  the two \<^verbatim>\<open>while\<close> loops is a recursive function whose value is \<open>None\<close> when the
  loop does not end (a side length that is not positive).
\<close>

partial_function (option) wrap_up :: "real \<Rightarrow> real \<Rightarrow> real option" where
  "wrap_up x b = (if x < 0 then wrap_up (x + b) b else Some x)"

partial_function (option) wrap_down :: "real \<Rightarrow> real \<Rightarrow> real option" where
  "wrap_down x b = (if x > b then wrap_down (x - b) b else Some x)"

definition wrap_coord :: "real \<Rightarrow> real \<Rightarrow> real option" where
  "wrap_coord x b = Option.bind (wrap_up x b) (\<lambda>y. wrap_down y b)"

text \<open>
  The inner loop runs over \<^verbatim>\<open>range(len(boxsize))\<close>: components of a row beyond the
  box's length are left alone. A row shorter than the box is read out of range by the
  compiled loop, which has no bounds check; the model stops at the end of the row.
\<close>

fun wrap_row :: "real list \<Rightarrow> real list \<Rightarrow> real list option" where
  "wrap_row p [] = Some p"
| "wrap_row [] (b # bs) = Some []"
| "wrap_row (x # xs) (b # bs) =
     Option.bind (wrap_coord x b) (\<lambda>y.
       Option.bind (wrap_row xs bs) (\<lambda>ys. Some (y # ys)))"

fun impose_pbc :: "real list list \<Rightarrow> real list \<Rightarrow> real list list option" where
  "impose_pbc [] boxsize = Some []"
| "impose_pbc (p # ps) boxsize =
     Option.bind (wrap_row p boxsize) (\<lambda>q.
       Option.bind (impose_pbc ps boxsize) (\<lambda>qs. Some (q # qs)))"

subsection \<open>Errors and results\<close>

text \<open>
  Every \<^verbatim>\<open>raise\<close> of the two modules is a value of \<open>error\<close>; a function that can
  raise returns \<open>Inl\<close> of it. \<open>LibraryError\<close> stands for an exception raised inside NumPy
  or SciPy, \<open>BroadcastError\<close> for NumPy's refusal to combine arrays of different shapes,
  \<open>ZeroDivisionError\<close> for a division of two Python floats by zero.
\<close>

datatype error =
    DimensionError
  | OrientationShapeError
  | WeightShapeError
  | ZeroPairsError
  | AssertionError
  | BroadcastError
  | ZeroDivisionError
  | LibraryError

type_synonym 'a result = "error + 'a"

text \<open>Elementwise arithmetic of two one-dimensional arrays, with NumPy's broadcasting.\<close>

definition broadcast2 :: "(real \<Rightarrow> real \<Rightarrow> real) \<Rightarrow> real list \<Rightarrow> real list \<Rightarrow> real list result" where
  "broadcast2 f xs ys =
     (if length xs = length ys then Inr (map2 f xs ys)
      else if length xs = 1 then Inr (map (f (hd xs)) ys)
      else if length ys = 1 then Inr (map (\<lambda>x. f x (hd ys)) xs)
      else Inl BroadcastError)"

text \<open>
  A float64 is a real number, or \<open>None\<close> when it is NaN or an infinity. A division of
  NumPy scalars or arrays by zero raises nothing: it gives NaN or an infinity.
\<close>

definition fdiv :: "real \<Rightarrow> real \<Rightarrow> real option" where
  "fdiv a b = (if b = 0 then None else Some (a / b))"

text \<open>A loop whose body may raise: the first error ends it.\<close>

fun collect :: "'a result list \<Rightarrow> 'a list result" where
  "collect [] = Inr []"
| "collect (x # xs) =
     (case x of Inl e \<Rightarrow> Inl e
      | Inr v \<Rightarrow> (case collect xs of Inl e \<Rightarrow> Inl e | Inr vs \<Rightarrow> Inr (v # vs)))"

subsection \<open>Structure factor\<close>

text \<open>
  \<^verbatim>\<open>fourier_corr\<close> (module particle_correlations) and \<^verbatim>\<open>structure_factor\<close> (module
  particle_cloud). SciPy's quadrature \<^verbatim>\<open>simps(f, r)\<close> and Bessel function
  \<^verbatim>\<open>jv(order, x)\<close>, and NumPy's \<^verbatim>\<open>np.arange(start, stop, step)\<close>, whose number of
  entries depends on the rounding of \<^verbatim>\<open>(stop - start) / step\<close>, are parameters of the
  model.

  In \<^verbatim>\<open>g = gr-1 if spatial else gr\<close> the name \<^verbatim>\<open>spatial\<close> is the imported module
  \<^verbatim>\<open>scipy.spatial\<close>, which is true as a condition.
\<close>

definition spatial :: bool where
  "spatial = True"

text \<open>
  The default wavenumber grid, \<^verbatim>\<open>dq = 2*np.pi / max(boxsize)\<close> and
  \<^verbatim>\<open>q = np.arange(dq, 200*dq, dq)\<close>. The box is a list of Python floats, as documented,
  so that the division raises for a box whose largest side is zero.
\<close>

definition default_q :: "(real \<Rightarrow> real \<Rightarrow> real \<Rightarrow> real list) \<Rightarrow> real list \<Rightarrow> real list result" where
  "default_q arange boxsize =
     (let m = fold max (tl boxsize) (hd boxsize)
      in if m = 0 then Inl ZeroDivisionError
         else let dq = 2 * pi / m in Inr (arange dq (200 * dq) dq))"

text \<open>
  The inner function \<^verbatim>\<open>S(q)\<close> of \<^verbatim>\<open>fourier_corr\<close>. The density
  \<^verbatim>\<open>N/np.prod(boxsize)\<close> and the quotient by \<^verbatim>\<open>q\<close> are divisions of NumPy scalars: a
  box of volume zero or a wavenumber zero makes the value NaN or an infinity.
\<close>

definition S_corr ::
  "(real list \<Rightarrow> real list \<Rightarrow> real) \<Rightarrow> (real \<Rightarrow> real \<Rightarrow> real) \<Rightarrow>
   real list \<Rightarrow> real list \<Rightarrow> nat \<Rightarrow> real list \<Rightarrow> real \<Rightarrow> real option result" where
  "S_corr simps jv gr r N boxsize q =
     (let rho = fdiv (real N) (prod_list boxsize);
          g = (if spatial then map (\<lambda>x. x - 1) gr else gr)
      in if length boxsize = 3
         then (case broadcast2 (*) (map (\<lambda>x. sin (q * x) * x) r) g of
                 Inl e \<Rightarrow> Inl e
               | Inr f \<Rightarrow>
                   Inr (Option.bind rho (\<lambda>rho.
                          map_option (\<lambda>x. 1 + x) (fdiv (4 * pi * rho * simps f r) q))))
         else (case broadcast2 (*) (map (\<lambda>x. jv 0 (q * x) * x) r) g of
                 Inl e \<Rightarrow> Inl e
               | Inr f \<Rightarrow> Inr (map_option (\<lambda>rho. 1 + 2 * pi * rho * simps f r) rho)))"

definition fourier_corr ::
  "(real \<Rightarrow> real \<Rightarrow> real \<Rightarrow> real list) \<Rightarrow> (real list \<Rightarrow> real list \<Rightarrow> real) \<Rightarrow>
   (real \<Rightarrow> real \<Rightarrow> real) \<Rightarrow> real list \<Rightarrow> real list \<Rightarrow> nat \<Rightarrow> real list \<Rightarrow> real list option \<Rightarrow>
   (real option list \<times> real list) result" where
  "fourier_corr arange simps jv gr r N boxsize q_opt =
     (if length boxsize \<notin> {2, 3} then Inl DimensionError
      else case (case q_opt of None \<Rightarrow> default_q arange boxsize | Some q \<Rightarrow> Inr q) of
             Inl e \<Rightarrow> Inl e
           | Inr q \<Rightarrow>
               (case collect (map (S_corr simps jv gr r N boxsize) q) of
                  Inl e \<Rightarrow> Inl e
                | Inr Sq \<Rightarrow> Inr (Sq, q)))"

text \<open>The inner function \<^verbatim>\<open>S(q)\<close> of \<^verbatim>\<open>structure_factor\<close>.\<close>

definition S_cloud ::
  "(real list \<Rightarrow> real list \<Rightarrow> real) \<Rightarrow> (real \<Rightarrow> real \<Rightarrow> real) \<Rightarrow>
   real list \<Rightarrow> real list \<Rightarrow> nat \<Rightarrow> real list \<Rightarrow> real \<Rightarrow> real option result" where
  "S_cloud simps jv gr r N boxsize q =
     (let rho = fdiv (real N) (prod_list boxsize)
      in if length boxsize = 3
         then (case broadcast2 (*) (map (\<lambda>x. sin (q * x) * x) r) (map (\<lambda>x. x - 1) gr) of
                 Inl e \<Rightarrow> Inl e
               | Inr f \<Rightarrow>
                   Inr (Option.bind rho (\<lambda>rho.
                          map_option (\<lambda>x. 1 + x) (fdiv (4 * pi * rho * simps f r) q))))
         else (case broadcast2 (*) (map (\<lambda>x. jv 0 (q * x) * x) r) (map (\<lambda>x. x - 1) gr) of
                 Inl e \<Rightarrow> Inl e
               | Inr f \<Rightarrow> Inr (map_option (\<lambda>rho. 1 + 2 * pi * rho * simps f r) rho)))"

definition structure_factor ::
  "(real \<Rightarrow> real \<Rightarrow> real \<Rightarrow> real list) \<Rightarrow> (real list \<Rightarrow> real list \<Rightarrow> real) \<Rightarrow>
   (real \<Rightarrow> real \<Rightarrow> real) \<Rightarrow> real list \<Rightarrow> real list \<Rightarrow> nat \<Rightarrow> real list \<Rightarrow> real list option \<Rightarrow>
   (real option list \<times> real list) result" where
  "structure_factor arange simps jv gr r N boxsize q_opt =
     (if length boxsize \<notin> {2, 3} then Inl DimensionError
      else case (case q_opt of None \<Rightarrow> default_q arange boxsize | Some q \<Rightarrow> Inr q) of
             Inl e \<Rightarrow> Inl e
           | Inr q \<Rightarrow>
               (case collect (map (S_cloud simps jv gr r N boxsize) q) of
                  Inl e \<Rightarrow> Inl e
                | Inr Sq \<Rightarrow> Inr (Sq, q)))"

text \<open>
  The transform as the specification words it: \<open>1 + 4 pi rho / q * Simpson(r sin(q r) G(r), r)\<close>
  in three dimensions and \<open>1 + 2 pi rho * Simpson(r J0(q r) G(r), r)\<close> in two, with
  \<open>G = gr - 1\<close> and \<open>rho = N / V\<close>.
\<close>

definition S_spec ::
  "(real list \<Rightarrow> real list \<Rightarrow> real) \<Rightarrow> (real \<Rightarrow> real \<Rightarrow> real) \<Rightarrow>
   real list \<Rightarrow> real list \<Rightarrow> nat \<Rightarrow> real list \<Rightarrow> real \<Rightarrow> real" where
  "S_spec simps jv gr r N boxsize q =
     (if length boxsize = 3
      then 1 + 4 * pi * (real N / prod_list boxsize) / q *
             simps (map2 (\<lambda>x g. x * sin (q * x) * (g - 1)) r gr) r
      else 1 + 2 * pi * (real N / prod_list boxsize) *
             simps (map2 (\<lambda>x g. x * jv 0 (q * x) * (g - 1)) r gr) r)"

subsection \<open>Vectors and matrices\<close>

text \<open>
  The compiled helpers \<^verbatim>\<open>_dot\<close>, \<^verbatim>\<open>_norm\<close>, \<^verbatim>\<open>_matvec\<close> and \<^verbatim>\<open>_matmul\<close> of
  particle_correlations; particle_cloud uses \<^verbatim>\<open>np.linalg.norm\<close> and \<^verbatim>\<open>@\<close>, which
  compute the same values. A matrix is the list of its rows.
\<close>

definition dot :: "real list \<Rightarrow> real list \<Rightarrow> real" where
  "dot a b = fold (\<lambda>i acc. acc + a ! i * b ! i) [0..<length a] 0"

definition norm_v :: "real list \<Rightarrow> real" where
  "norm_v x = sqrt (dot x x)"

definition matvec :: "real list list \<Rightarrow> real list \<Rightarrow> real list" where
  "matvec A x = fold (\<lambda>i b. b[i := dot (A ! i) x]) [0..<length A] (replicate (length x) 0)"

definition matmul :: "real list list \<Rightarrow> real list list \<Rightarrow> real list list" where
  "matmul A B =
     map (\<lambda>i. map (\<lambda>j. dot (A ! i) (map (\<lambda>row. row ! j) B)) [0..<length (hd A)])
         [0..<length A]"

text \<open>The array difference \<^verbatim>\<open>a - b\<close> of two rows of the positions array.\<close>

definition vsub :: "real list \<Rightarrow> real list \<Rightarrow> real list" where
  "vsub a b = map2 (-) a b"

subsection \<open>Closest periodic image\<close>

text \<open>
  \<^verbatim>\<open>np.argmin\<close> returns the first index of the smallest entry and raises on an empty
  array.
\<close>

fun argmin_from :: "real list \<Rightarrow> nat \<Rightarrow> nat \<Rightarrow> real \<Rightarrow> nat" where
  "argmin_from [] i best v = best"
| "argmin_from (d # ds) i best v =
     (if d < v then argmin_from ds (i + 1) i d else argmin_from ds (i + 1) best v)"

definition argmin :: "real list \<Rightarrow> nat result" where
  "argmin ds = (case ds of [] \<Rightarrow> Inl LibraryError | d # ds' \<Rightarrow> Inr (argmin_from ds' 1 0 d))"

definition closest_point1d :: "real \<Rightarrow> real list \<Rightarrow> (real \<times> nat) result" where
  "closest_point1d target positions =
     (let distance = map (\<lambda>p. \<bar>p - target\<bar>) positions
      in case argmin distance of Inl e \<Rightarrow> Inl e | Inr ind \<Rightarrow> Inr (positions ! ind, ind))"

definition closest_image :: "real list \<Rightarrow> real list \<Rightarrow> real list \<Rightarrow> real list result" where
  "closest_image target source boxsize =
     (if length source \<noteq> length target then Inl AssertionError
      else collect (map (\<lambda>i.
             let pts = [source ! i, source ! i - boxsize ! i, source ! i + boxsize ! i]
             in case closest_point1d (target ! i) pts of
                  Inl e \<Rightarrow> Inl e
                | Inr (pos, ind) \<Rightarrow> Inr pos)
           [0..<length target]))"

text \<open>
  The first step of the loop body of \<^verbatim>\<open>_get_displacements\<close> in both modules: the raw
  displacement, replaced through the closest image when its norm reaches \<^verbatim>\<open>rmax\<close>.
\<close>

definition displacement :: "real list \<Rightarrow> real list \<Rightarrow> real list \<Rightarrow> real \<Rightarrow> real list result" where
  "displacement r_i r_j boxsize rmax =
     (let r_ij = vsub r_j r_i
      in if norm_v r_ij \<ge> rmax
         then (case closest_image r_i r_j boxsize of
                 Inl e \<Rightarrow> Inl e
               | Inr img \<Rightarrow> Inr (vsub img r_i))
         else Inr r_ij)"

text \<open>
  What the specification asks of one axis of the image: it is one of the source
  coordinate and its two translates by the side length, and none of the three is closer
  to the target coordinate.
\<close>

definition axis_ok :: "real \<Rightarrow> real \<Rightarrow> real \<Rightarrow> real \<Rightarrow> bool" where
  "axis_ok t s b pos \<longleftrightarrow>
     pos \<in> {s, s - b, s + b} \<and> (\<forall>c \<in> {s, s - b, s + b}. \<bar>pos - t\<bar> \<le> \<bar>c - t\<bar>)"

subsection \<open>Rotation into the frame of a particle\<close>

text \<open>
  A division of zero by zero gives NaN in float64. Where the source divides a vector by
  its norm, the model returns \<open>None\<close> when the norm is zero: \<open>None\<close> stands for a
  vector or matrix whose entries are NaN. \<^verbatim>\<open>np.arccos\<close> outside \<open>[-1, 1]\<close> is NaN as well.
  \<open>unit_vector\<close> is the expression \<^verbatim>\<open>p[i] / _norm(p[i])\<close>.
\<close>

definition unit_vector :: "real list \<Rightarrow> real list option" where
  "unit_vector p = (let n = norm_v p in if n = 0 then None else Some (map (\<lambda>x. x / n) p))"

definition eye3 :: "real list list" where
  "eye3 = [[1, 0, 0], [0, 1, 0], [0, 0, 1]]"

definition mat_add :: "real list list \<Rightarrow> real list list \<Rightarrow> real list list" where
  "mat_add A B = map2 (map2 (+)) A B"

definition mat_scale :: "real \<Rightarrow> real list list \<Rightarrow> real list list" where
  "mat_scale s A = map (map ((*) s)) A"

text \<open>
  \<^verbatim>\<open>_rotation_matrix(p)\<close> of particle_correlations. With a zero axis \<open>k\<close>, the division
  \<^verbatim>\<open>k /= _norm(k)\<close> makes every entry of \<open>k\<close> NaN, hence every entry of \<^verbatim>\<open>_matmul(K, K)\<close>
  and of \<open>R\<close>.
\<close>

definition rotation_matrix :: "real list \<Rightarrow> real list list option" where
  "rotation_matrix p =
     (if \<bar>last p\<bar> > 1 then None
      else let cs = last p; sn = sin (arccos (last p))
      in if length p = 2 then Some [[cs, - sn], [sn, cs]]
         else let k = [p ! 1, - (p ! 0), 0]
              in if norm_v k = 0 then None
                 else let k = map (\<lambda>x. x / norm_v k) k;
                          K = [[0, - (k ! 2), k ! 1],
                               [k ! 2, 0, - (k ! 0)],
                               [- (k ! 1), k ! 0, 0]]
                      in Some (mat_add (mat_add eye3 (mat_scale sn K))
                                       (mat_scale (1 - cs) (matmul K K))))"

text \<open>
  The matrix built inline in \<^verbatim>\<open>_get_displacements\<close> of particle_cloud; \<open>None\<close> when
  the angle is NaN, which leaves no coordinate of the sample a number.
\<close>

definition rotation_cloud :: "real list \<Rightarrow> nat \<Rightarrow> real list list option" where
  "rotation_cloud p_i ndim =
     (if \<bar>last p_i\<bar> > 1 then None
      else let angle = arccos (last p_i); c = cos angle; s = sin angle
      in if ndim = 2 then Some [[c, - s], [s, c]]
         else Some [[c, - s, 0], [s, c, 0], [0, 0, 1]])"

text \<open>The block under \<^verbatim>\<open>if rotate:\<close> in the two modules.\<close>

definition rotate_corr :: "real list \<Rightarrow> real list \<Rightarrow> real list option" where
  "rotate_corr p r_ij =
     (case unit_vector p of
        None \<Rightarrow> None
      | Some p_i \<Rightarrow> (case rotation_matrix p_i of
                      None \<Rightarrow> None
                    | Some R \<Rightarrow> Some (matvec R r_ij)))"

definition rotate_cloud :: "real list \<Rightarrow> nat \<Rightarrow> real list \<Rightarrow> real list option" where
  "rotate_cloud p ndim r_ij =
     (case unit_vector p of
        None \<Rightarrow> None
      | Some p_i \<Rightarrow> (case rotation_cloud p_i ndim of
                      None \<Rightarrow> None
                    | Some R \<Rightarrow> Some (matvec R r_ij)))"

subsection \<open>Displacement samples\<close>

text \<open>
  \<^verbatim>\<open>np.arctan2(y, x)\<close> on real numbers. A coordinate of a sample is \<open>None\<close> when it is
  NaN, as all of them are after a NaN rotation. The polar angle \<^verbatim>\<open>arccos(z / norm)\<close>
  of a displacement of length zero is NaN: the compiled loop divides without raising.
\<close>

definition arctan2 :: "real \<Rightarrow> real \<Rightarrow> real" where
  "arctan2 y x =
     (if 0 < x then arctan (y / x)
      else if x < 0 then (if 0 \<le> y then arctan (y / x) + pi else arctan (y / x) - pi)
      else if 0 < y then pi / 2 else if y < 0 then - (pi / 2) else 0)"

definition r_coord :: "real list option \<Rightarrow> real option" where
  "r_coord v = map_option norm_v v"

definition phi_coord :: "real list option \<Rightarrow> real option" where
  "phi_coord v = map_option (\<lambda>r_ij. arctan2 (r_ij ! 1) (r_ij ! 0)) v"

definition theta_coord :: "real list option \<Rightarrow> real option" where
  "theta_coord v =
     Option.bind v (\<lambda>r_ij. map_option arccos (fdiv (r_ij ! 2) (norm_v r_ij)))"

text \<open>An array of shape \<open>(N, ndim)\<close>: its rows and the length of a row.\<close>

record array2 =
  ncols :: nat
  rows :: "real list list"

definition shape :: "array2 \<Rightarrow> nat \<times> nat" where
  "shape a = (length (rows a), ncols a)"

definition zeros2 :: "nat \<Rightarrow> nat \<Rightarrow> array2" where
  "zeros2 m n = \<lparr>ncols = n, rows = replicate m (replicate n 0)\<rparr>"

text \<open>
  The body of the loops of \<^verbatim>\<open>_get_displacements\<close> in particle_correlations, for one
  ordered pair: the row written to \<^verbatim>\<open>rbuff\<close> and the weight written to \<^verbatim>\<open>wbuff\<close>.
  \<^verbatim>\<open>corr\<close> allocates \<^verbatim>\<open>rbuff\<close> with one column for each binned coordinate, so the body
  writes the whole row. The weight is \<^verbatim>\<open>_dot(w[i], w[j])**z\<close>; zero to a negative power,
  which is not a finite float64, is outside the model.
\<close>

type_synonym sample = "real option list"

definition sample_corr ::
  "array2 \<Rightarrow> array2 \<Rightarrow> int \<Rightarrow> array2 \<Rightarrow> real list \<Rightarrow> real \<Rightarrow> int \<Rightarrow> int \<Rightarrow> int \<Rightarrow> bool \<Rightarrow>
   nat \<times> nat \<Rightarrow> (sample \<times> real) result" where
  "sample_corr r w z p boxsize rmax nr nphi ntheta wflag pair =
     (let rotate = (shape p = shape r); i = fst pair; j = snd pair
      in case displacement (rows r ! i) (rows r ! j) boxsize rmax of
           Inl e \<Rightarrow> Inl e
         | Inr d \<Rightarrow>
             let r_ij = (if rotate then rotate_corr (rows p ! i) d else Some d);
                 wij = (if wflag then power_int (dot (rows w ! i) (rows w ! j)) z else 0)
             in Inr ((if nr > 1 then [r_coord r_ij] else []) @
                     (if nphi > 1 then [phi_coord r_ij] else []) @
                     (if ntheta > 1 then [theta_coord r_ij] else []), wij))"

text \<open>
  The loops over \<^verbatim>\<open>idx1\<close> and \<^verbatim>\<open>idx2\<close>: the pair as stored goes to slot \<^verbatim>\<open>idx1\<close>, the
  reversed pair to slot \<^verbatim>\<open>idx1 + nthreads\<close>.
\<close>

fun fill_buffers ::
  "(nat \<times> nat \<Rightarrow> (sample \<times> real) result) \<Rightarrow> (nat \<times> nat) list \<Rightarrow> bool \<Rightarrow> nat list \<Rightarrow>
   sample list \<times> real list \<Rightarrow> (sample list \<times> real list) result" where
  "fill_buffers f pairs wflag [] bufs = Inr bufs"
| "fill_buffers f pairs wflag (idx1 # rest) bufs =
     (let nthreads = length pairs; pair = pairs ! idx1
      in case f pair of
           Inl e \<Rightarrow> Inl e
         | Inr (c0, w0) \<Rightarrow>
            (case f (prod.swap pair) of
               Inl e \<Rightarrow> Inl e
             | Inr (c1, w1) \<Rightarrow>
                 fill_buffers f pairs wflag rest
                   (((fst bufs)[idx1 + nthreads * 0 := c0])[idx1 + nthreads * 1 := c1],
                    if wflag
                    then ((snd bufs)[idx1 + nthreads * 0 := w0])[idx1 + nthreads * 1 := w1]
                    else snd bufs)))"

definition get_displacements_corr ::
  "sample list \<Rightarrow> real list \<Rightarrow> (nat \<times> nat) list \<Rightarrow> array2 \<Rightarrow> array2 \<Rightarrow> int \<Rightarrow> array2 \<Rightarrow>
   real list \<Rightarrow> real \<Rightarrow> int \<Rightarrow> int \<Rightarrow> int \<Rightarrow> (sample list \<times> real list) result" where
  "get_displacements_corr rbuff wbuff pairs r w z p boxsize rmax nr nphi ntheta =
     fill_buffers (sample_corr r w z p boxsize rmax nr nphi ntheta (length wbuff > 1))
       pairs (length wbuff > 1) [0..<length pairs] (rbuff, wbuff)"

text \<open>
  The body of the loop of \<^verbatim>\<open>_get_displacements\<close> in particle_cloud, for one row of
  \<^verbatim>\<open>pairs\<close>, up to the rotated displacement.
\<close>

definition sample_cloud ::
  "array2 \<Rightarrow> array2 option \<Rightarrow> real list \<Rightarrow> real \<Rightarrow> nat \<times> nat \<Rightarrow> real list option result" where
  "sample_cloud r p boxsize rmax pair =
     (let rotate = (case p of None \<Rightarrow> False | Some a \<Rightarrow> shape a = shape r);
          ndim = ncols r; i = fst pair; j = snd pair
      in case displacement (rows r ! i) (rows r ! j) boxsize rmax of
           Inl e \<Rightarrow> Inl e
         | Inr d \<Rightarrow> Inr (if rotate then rotate_cloud (rows (the p) ! i) ndim d else Some d))"

text \<open>
  \<^verbatim>\<open>_get_displacements\<close> of particle_cloud: for a binned coordinate one entry per row
  of \<^verbatim>\<open>pairs\<close>, the norm, the azimuth or the polar angle of the displacement, and the
  one-element array \<^verbatim>\<open>[0.]\<close> for a coordinate that is not binned.
\<close>

definition get_displacements_cloud ::
  "array2 \<Rightarrow> array2 option \<Rightarrow> (nat \<times> nat) list \<Rightarrow> real list \<Rightarrow> real \<Rightarrow> int \<Rightarrow> int \<Rightarrow> int \<Rightarrow>
   (real option list \<times> real option list \<times> real option list) result" where
  "get_displacements_cloud r p pairs boxsize rmax nr nphi ntheta =
     (case collect (map (sample_cloud r p boxsize rmax) pairs) of
        Inl e \<Rightarrow> Inl e
      | Inr ds \<Rightarrow>
          Inr (if nr > 1 then map r_coord ds else [Some 0],
               if nphi > 1 then map phi_coord ds else [Some 0],
               if ntheta > 1 then map theta_coord ds else [Some 0]))"

subsection \<open>Pairs\<close>

text \<open>
  The periodic k-d tree of SciPy is a parameter \<open>query_pairs\<close>: from the coordinates, the
  box and the cutoff it gives the list of pairs found (\<open>None\<close> when it raises).
  \<^verbatim>\<open>_get_pairs\<close> of particle_cloud appends the swapped pairs; \<^verbatim>\<open>_get_pairs\<close> of
  particle_correlations returns the pairs as found.
\<close>

definition get_pairs_cloud ::
  "(real list list \<Rightarrow> real list \<Rightarrow> real \<Rightarrow> (nat \<times> nat) list option) \<Rightarrow>
   real list list \<Rightarrow> real list \<Rightarrow> real \<Rightarrow> (nat \<times> nat) list result" where
  "get_pairs_cloud query_pairs coords boxsize rmax =
     (case query_pairs coords boxsize rmax of
        None \<Rightarrow> Inl LibraryError
      | Some temp \<Rightarrow> Inr (temp @ map prod.swap temp))"

definition get_pairs_corr ::
  "(real list list \<Rightarrow> real list \<Rightarrow> real \<Rightarrow> (nat \<times> nat) list option) \<Rightarrow>
   real list list \<Rightarrow> real list \<Rightarrow> real \<Rightarrow> (nat \<times> nat) list result" where
  "get_pairs_corr query_pairs coords boxsize rmax =
     (case query_pairs coords boxsize rmax of
        None \<Rightarrow> Inl LibraryError
      | Some pairs \<Rightarrow> Inr pairs)"

subsection \<open>Bin edges\<close>

text \<open>
  \<^verbatim>\<open>np.linspace(start, stop, num)\<close>: \<open>num\<close> evenly spaced values from \<open>start\<close> to
  \<open>stop\<close>, and an error for a negative \<open>num\<close>.
\<close>

definition linspace :: "real \<Rightarrow> real \<Rightarrow> int \<Rightarrow> real list option" where
  "linspace start stop num =
     (if num < 0 then None
      else if num = 1 then Some [start]
      else Some (map (\<lambda>k. start + real k * ((stop - start) / real_of_int (num - 1)))
                     [0..<nat num]))"

subsection \<open>Histogram\<close>

text \<open>
  Modelled from the spec: the histogram routine, \<^verbatim>\<open>np.histogramdd\<close>, is called by
  \<^verbatim>\<open>_get_distribution\<close> and is not code of this repository. The bin of a value on one
  axis, with the specification's edge policy: a bin is closed on the left and open on
  the right, except the last bin of the axis, which includes its right edge.
\<close>

fun find_bin :: "real list \<Rightarrow> real \<Rightarrow> nat option" where
  "find_bin (a # b # es) v =
     (if a \<le> v \<and> (v < b \<or> (es = [] \<and> v = b)) then Some 0
      else map_option Suc (find_bin (b # es) v))"
| "find_bin es v = None"

text \<open>
  Modelled from the spec: the bin of one coordinate of a sample; a NaN coordinate lies in
  no bin.
\<close>

definition bin_index :: "real list \<Rightarrow> real option \<Rightarrow> nat option" where
  "bin_index edges x = (case x of None \<Rightarrow> None | Some v \<Rightarrow> find_bin edges v)"

text \<open>
  Modelled from the spec: the cell of a sample, one bin index per binned axis; the sample
  is outside the grid when a coordinate is outside the edges of its axis.
\<close>

fun cell_of :: "real list list \<Rightarrow> sample \<Rightarrow> nat list option" where
  "cell_of [] [] = Some []"
| "cell_of (e # es) (x # xs) =
     (case bin_index e x of
        None \<Rightarrow> None
      | Some k \<Rightarrow> map_option (Cons k) (cell_of es xs))"
| "cell_of es xs = None"

text \<open>Modelled from the spec: the cells of the count grid, in row-major order.\<close>

definition cells :: "real list list \<Rightarrow> nat list list" where
  "cells bins = product_lists (map (\<lambda>e. [0..<length e - 1]) bins)"

text \<open>
  Modelled from the spec: the count grid over the binned axes, flattened in row-major
  order. A cell holds the number of samples that fall into it, or the sum of their
  weights when weights are given. \<open>None\<close> is an exception of the routine.
\<close>

definition histogramdd :: "sample list \<Rightarrow> real list list \<Rightarrow> real list option \<Rightarrow> real list option" where
  "histogramdd samples bins wts =
     (if \<exists>row \<in> set samples. length row \<noteq> length bins then None
      else case wts of
        None \<Rightarrow>
          Some (map (\<lambda>c. real (length (filter (\<lambda>row. cell_of bins row = Some c) samples)))
                    (cells bins))
      | Some ws \<Rightarrow>
          if length ws \<noteq> length samples then None
          else Some (map (\<lambda>c. sum_list (map snd
                                 (filter (\<lambda>rw. cell_of bins (fst rw) = Some c) (zip samples ws))))
                         (cells bins)))"

subsection \<open>Normalisation\<close>

text \<open>
  A cell of \<open>g\<close> whose divisor is zero is NaN or an infinity, \<open>None\<close> in the model.
  \<open>normalise\<close> is the tail of \<^verbatim>\<open>_get_distribution\<close>, the same in
  both modules: the count grid divided by \<^verbatim>\<open>N*vol*density\<close>. Grids are flattened, so
  \<^verbatim>\<open>np.squeeze\<close> does not show; grids of different sizes do not combine. For a box of
  volume zero the density is infinite: the divisor of a cell is then infinite and the
  cell zero, or NaN when \<open>N\<close> or the cell volume is zero.
\<close>

text \<open>The histogram routine is a parameter of the functions that call it.\<close>

type_synonym histogram = "sample list \<Rightarrow> real list list \<Rightarrow> real list option \<Rightarrow> real list option"

definition normalise ::
  "real list \<Rightarrow> nat \<Rightarrow> real list \<Rightarrow> real list \<Rightarrow> real list \<Rightarrow> real list \<Rightarrow> real option list result" where
  "normalise count N boxsize r_n phi_m theta_l =
     (let ndim = length boxsize;
          density = real N / prod_list boxsize;
          vol = concat (concat (get_volume count r_n phi_m theta_l ndim))
      in if length count \<noteq> length vol then Inl BroadcastError
         else Inr (map2 (\<lambda>c v. if prod_list boxsize = 0
                                then (if N = 0 \<or> v = 0 then None else Some 0)
                                else fdiv c (real N * v * density)) count vol))"

definition get_distribution_corr ::
  "histogram \<Rightarrow> sample list \<Rightarrow> real list \<Rightarrow> nat \<Rightarrow> real list \<Rightarrow> real list \<Rightarrow> real list \<Rightarrow>
   real list \<Rightarrow> real option list result" where
  "get_distribution_corr hist rij wiwj N boxsize r_n phi_m theta_l =
     (let bins = filter (\<lambda>b. length b > 2) [r_n, phi_m, theta_l];
          wts = (if length wiwj > 1 then Some wiwj else None)
      in case hist rij bins wts of
           None \<Rightarrow> Inl LibraryError
         | Some count \<Rightarrow> normalise count N boxsize r_n phi_m theta_l)"

definition get_distribution_cloud ::
  "histogram \<Rightarrow> real option list \<Rightarrow> real option list \<Rightarrow> real option list \<Rightarrow> nat \<Rightarrow> real list \<Rightarrow>
   real list \<Rightarrow> real list \<Rightarrow> real list \<Rightarrow> real option list result" where
  "get_distribution_cloud hist r phi theta N boxsize r_n phi_m theta_l =
     (let sb = filter (\<lambda>sb. length (fst sb) > 1) [(r, r_n), (phi, phi_m), (theta, theta_l)];
          samples = map fst sb;
          bins = map snd sb
      in case hist (transpose samples) bins None of
           None \<Rightarrow> Inl LibraryError
         | Some count \<Rightarrow> normalise count N boxsize r_n phi_m theta_l)"

subsection \<open>The entry points\<close>

text \<open>
  The arrays owned by the caller of \<^verbatim>\<open>corr\<close> or \<^verbatim>\<open>sdf\<close>. The model of a call returns
  the outcome together with these arrays as they are after the call, and \<open>None\<close> when
  the call does not return.
\<close>

record arrays =
  positions :: array2
  orientations :: "array2 option"
  weights :: "array2 option"

type_synonym grid_output = "real option list \<times> real list \<times> real list \<times> real list option"

type_synonym pair_query = "real list list \<Rightarrow> real list \<Rightarrow> real \<Rightarrow> (nat \<times> nat) list option"

definition bin_count :: "int option \<Rightarrow> int" where
  "bin_count n = (case n of None \<Rightarrow> 1 | Some k \<Rightarrow> if k < 1 then 1 else k)"

definition default_rmax :: "real list \<Rightarrow> real option \<Rightarrow> real result" where
  "default_rmax boxsize rmax =
     (case rmax of
        Some v \<Rightarrow> Inr v
      | None \<Rightarrow> (case boxsize of [] \<Rightarrow> Inl LibraryError
                 | b # bs \<Rightarrow> Inr (fold max bs b / 2)))"

definition bin_edges ::
  "real \<Rightarrow> real \<Rightarrow> int \<Rightarrow> int \<Rightarrow> int \<Rightarrow> (real list \<times> real list \<times> real list) result" where
  "bin_edges rmin rmax nr nphi ntheta =
     (case linspace rmin rmax (nr + 1) of
        None \<Rightarrow> Inl LibraryError
      | Some r_n \<Rightarrow>
         (case linspace 0 1 (nphi + 1) of
            None \<Rightarrow> Inl LibraryError
          | Some u \<Rightarrow>
             (case linspace 0 1 (ntheta + 1) of
                None \<Rightarrow> Inl LibraryError
              | Some v \<Rightarrow> Inr (r_n, map (\<lambda>x. 2 * pi * x - pi) u, map (\<lambda>x. pi * x) v))))"

text \<open>\<^verbatim>\<open>corr\<close> from the pair search on, after the positions have been wrapped.\<close>

definition corr_compute ::
  "pair_query \<Rightarrow> histogram \<Rightarrow> array2 \<Rightarrow> array2 \<Rightarrow> int \<Rightarrow> array2 \<Rightarrow> real list \<Rightarrow>
   real \<Rightarrow> real \<Rightarrow> int \<Rightarrow> int \<Rightarrow> int \<Rightarrow> grid_output result" where
  "corr_compute query_pairs hist r w z p boxsize rmin rmax nr nphi ntheta =
     (let N = length (rows r); ndim = ncols r;
          ncoords = length (filter (\<lambda>n. n > 1) [nr, nphi, ntheta])
      in case get_pairs_corr query_pairs (rows r) boxsize rmax of
           Inl e \<Rightarrow> Inl e
         | Inr pairs \<Rightarrow>
            let npairs = length pairs
            in if npairs = 0 then Inl ZeroPairsError
               else
                 let rbuff = replicate (2 * npairs) (replicate ncoords (Some 0));
                     wbuff = (if length (rows w) > 1 then replicate (2 * npairs) 0 else [])
                 in case get_displacements_corr rbuff wbuff pairs r w z p boxsize rmax
                           nr nphi ntheta of
                      Inl e \<Rightarrow> Inl e
                    | Inr (rij, wiwj) \<Rightarrow>
                       (case bin_edges rmin rmax nr nphi ntheta of
                          Inl e \<Rightarrow> Inl e
                        | Inr (r_n, phi_m, theta_l) \<Rightarrow>
                           (case get_distribution_corr hist rij wiwj N boxsize r_n phi_m theta_l of
                              Inl e \<Rightarrow> Inl e
                            | Inr g \<Rightarrow>
                                Inr (g, butlast r_n, butlast phi_m,
                                     if ndim = 3 then Some (butlast theta_l) else None))))"

definition corr ::
  "pair_query \<Rightarrow> histogram \<Rightarrow> arrays \<Rightarrow> real list \<Rightarrow> int \<Rightarrow> real option \<Rightarrow> real option \<Rightarrow>
   int option \<Rightarrow> int option \<Rightarrow> int option \<Rightarrow> (grid_output result \<times> arrays) option" where
  "corr query_pairs hist s boxsize z rmin rmax nr nphi ntheta =
     (let N = length (rows (positions s)); ndim = ncols (positions s)
      in if ndim \<notin> {2, 3} then Some (Inl DimensionError, s)
         else if (case orientations s of None \<Rightarrow> False | Some a \<Rightarrow> shape a \<noteq> (N, ndim))
         then Some (Inl OrientationShapeError, s)
         else if (case weights s of None \<Rightarrow> False | Some a \<Rightarrow> shape a \<noteq> (N, ndim))
         then Some (Inl WeightShapeError, s)
         else
           let p = (case orientations s of None \<Rightarrow> zeros2 1 ndim | Some a \<Rightarrow> a);
               w = (case weights s of None \<Rightarrow> zeros2 1 ndim | Some a \<Rightarrow> a);
               rmin = (case rmin of None \<Rightarrow> 0 | Some v \<Rightarrow> v);
               nr = bin_count nr;
               nphi = bin_count nphi;
               ntheta = (if ndim = 2 then 1 else bin_count ntheta)
           in case default_rmax boxsize rmax of
                Inl e \<Rightarrow> Some (Inl e, s)
              | Inr rmax \<Rightarrow>
                 (case impose_pbc (rows (positions s)) boxsize of
                    None \<Rightarrow> None
                  | Some wrapped \<Rightarrow>
                      let r = (positions s)\<lparr>rows := wrapped\<rparr>
                      in Some (corr_compute query_pairs hist r w z p boxsize rmin rmax
                                 nr nphi ntheta,
                               s\<lparr>positions := r\<rparr>)))"

text \<open>\<^verbatim>\<open>sdf\<close> from the pair search on; there is no test of the number of pairs.\<close>

definition sdf_compute ::
  "pair_query \<Rightarrow> histogram \<Rightarrow> array2 \<Rightarrow> array2 option \<Rightarrow> real list \<Rightarrow>
   real \<Rightarrow> real \<Rightarrow> int \<Rightarrow> int \<Rightarrow> int \<Rightarrow> grid_output result" where
  "sdf_compute query_pairs hist r p boxsize rmin rmax nr nphi ntheta =
     (let N = length (rows r); ndim = ncols r
      in case get_pairs_cloud query_pairs (rows r) boxsize rmax of
           Inl e \<Rightarrow> Inl e
         | Inr pairs \<Rightarrow>
            (case get_displacements_cloud r p pairs boxsize rmax nr nphi ntheta of
               Inl e \<Rightarrow> Inl e
             | Inr (rs, phi, theta) \<Rightarrow>
                (case bin_edges rmin rmax nr nphi ntheta of
                   Inl e \<Rightarrow> Inl e
                 | Inr (r_n, phi_m, theta_l) \<Rightarrow>
                    (case get_distribution_cloud hist rs phi theta N boxsize r_n phi_m theta_l of
                       Inl e \<Rightarrow> Inl e
                     | Inr g \<Rightarrow>
                         Inr (g, butlast r_n, butlast phi_m,
                              if ndim = 3 then Some (butlast theta_l) else None)))))"

definition sdf ::
  "pair_query \<Rightarrow> histogram \<Rightarrow> arrays \<Rightarrow> real list \<Rightarrow> real option \<Rightarrow> real option \<Rightarrow>
   int \<Rightarrow> int option \<Rightarrow> int option \<Rightarrow> (grid_output result \<times> arrays) option" where
  "sdf query_pairs hist s boxsize rmin rmax nr nphi ntheta =
     (let N = length (rows (positions s)); ndim = ncols (positions s)
      in if ndim \<notin> {2, 3} then Some (Inl DimensionError, s)
         else if (case orientations s of None \<Rightarrow> False | Some a \<Rightarrow> shape a \<noteq> (N, ndim))
         then Some (Inl OrientationShapeError, s)
         else
           let rmin = (case rmin of None \<Rightarrow> 0 | Some v \<Rightarrow> v);
               nphi = (case nphi of None \<Rightarrow> 1 | Some k \<Rightarrow> k);
               ntheta = (case ntheta of None \<Rightarrow> 1 | Some k \<Rightarrow> if ndim = 2 then 1 else k)
           in case default_rmax boxsize rmax of
                Inl e \<Rightarrow> Some (Inl e, s)
              | Inr rmax \<Rightarrow>
                 (case impose_pbc (rows (positions s)) boxsize of
                    None \<Rightarrow> None
                  | Some wrapped \<Rightarrow>
                      let r = (positions s)\<lparr>rows := wrapped\<rparr>
                      in Some (sdf_compute query_pairs hist r (orientations s) boxsize rmin rmax
                                 nr nphi ntheta,
                               s\<lparr>positions := r\<rparr>)))"




text \<open>
  The samples that lie inside the binned domain: every coordinate is a number between the
  first and the last edge of its axis, both included.
\<close>

definition in_domain :: "real list list \<Rightarrow> sample \<Rightarrow> bool" where
  "in_domain bins row \<longleftrightarrow>
     list_all2 (\<lambda>e x. case x of None \<Rightarrow> False | Some v \<Rightarrow> hd e \<le> v \<and> v \<le> last e) bins row"

subsection \<open>Theorems\<close>

text \<open>
  C1. For all bin edges and every dimension, cell \<open>(n, m, l)\<close> of the grid computed by
  \<^verbatim>\<open>_get_volume\<close> is the radial factor \<open>(r\<^sub>n\<^sub>+\<^sub>1^d - r\<^sub>n^d) / d\<close> times the azimuthal width
  \<open>phi\<^sub>m\<^sub>+\<^sub>1 - phi\<^sub>m\<close>, times \<open>cos theta\<^sub>l - cos theta\<^sub>l\<^sub>+\<^sub>1\<close> exactly when \<open>d = 3\<close>; the grid
  has one cell per triple of bins, and it does not depend on the histogram passed in,
  the only argument that derives from particle data.
\<close>

theorem get_volume_cell:
  "length (get_volume count r phi theta d) = length r - 1 \<and>
   (\<forall>n < length r - 1. length (get_volume count r phi theta d ! n) = length phi - 1 \<and>
     (\<forall>m < length phi - 1.
        length (get_volume count r phi theta d ! n ! m) = length theta - 1 \<and>
        (\<forall>l < length theta - 1.
           get_volume count r phi theta d ! n ! m ! l =
             (((r ! (n + 1)) ^ d - (r ! n) ^ d) / real d) * (phi ! (m + 1) - phi ! m) *
             (if d = 3 then cos (theta ! l) - cos (theta ! (l + 1)) else 1)))) \<and>
   get_volume count r phi theta d = get_volume count' r phi theta d"
  by (simp add: get_volume_def Let_def)

theorem get_volume_cell_witness:
  "get_volume [] [1, 2] [0, 3] [0, pi] 2 ! 0 ! 0 ! 0 = 9 / 2 \<and>
   get_volume [] [1, 2] [0, 3] [0, pi] 3 ! 0 ! 0 ! 0 = 14"
proof -
  have a: "get_volume [] [1, 2] [0, 3] [0, pi] 2 ! 0 ! 0 ! 0 =
      ((([1, 2] ! (0 + 1)) ^ 2 - ([1, 2::real] ! 0) ^ 2) / real 2) *
      ([0, 3] ! (0 + 1) - [0, 3] ! 0) *
      (if (2::nat) = 3 then cos ([0, pi] ! 0) - cos ([0, pi] ! (0 + 1)) else 1)"
    using get_volume_cell [of "[]" "[1, 2]" "[0, 3]" "[0, pi]" 2 "[]"] by simp
  have b: "get_volume [] [1, 2] [0, 3] [0, pi] 3 ! 0 ! 0 ! 0 =
      ((([1, 2] ! (0 + 1)) ^ 3 - ([1, 2::real] ! 0) ^ 3) / real 3) *
      ([0, 3] ! (0 + 1) - [0, 3] ! 0) *
      (if (3::nat) = 3 then cos ([0, pi] ! 0) - cos ([0, pi] ! (0 + 1)) else 1)"
    using get_volume_cell [of "[]" "[1, 2]" "[0, 3]" "[0, pi]" 3 "[]"] by simp
  show ?thesis using a b by simp
qed

subsection \<open>Periodic wrapping: the loops end and stay inside the closed box\<close>

lemma wrap_up_total:
  assumes "0 < b"
  shows "\<exists>y. wrap_up x b = Some y \<and> 0 \<le> y \<and> (if x < 0 then y < b else y = x)"
proof (induction "nat \<lceil>- x / b\<rceil>" arbitrary: x rule: less_induct)
  case less
  show ?case
  proof (cases "x < 0")
    case False
    then show ?thesis by (subst wrap_up.simps) simp
  next
    case True
    have lt: "nat \<lceil>- (x + b) / b\<rceil> < nat \<lceil>- x / b\<rceil>"
    proof -
      have "- (x + b) / b = - x / b - 1" using assms by (simp add: field_simps)
      then have "\<lceil>- (x + b) / b\<rceil> = \<lceil>- x / b\<rceil> - 1" by simp
      moreover have "0 < (- x) / b" using True assms by (intro divide_pos_pos) auto
      then have "0 < \<lceil>- x / b\<rceil>" by simp
      ultimately show ?thesis by simp
    qed
    from less [OF lt] obtain y where y: "wrap_up (x + b) b = Some y" "0 \<le> y"
      "if x + b < 0 then y < b else y = x + b" by blast
    have "y < b" using y(3) True by (auto split: if_splits)
    moreover have "wrap_up x b = Some y" using True y(1) by (subst wrap_up.simps) simp
    ultimately show ?thesis using y(2) True by simp
  qed
qed

lemma wrap_down_total:
  assumes "0 < b" "0 \<le> x"
  shows "\<exists>y. wrap_down x b = Some y \<and> 0 \<le> y \<and> y \<le> b \<and> (x \<le> b \<longrightarrow> y = x)"
  using assms(2)
proof (induction "nat \<lceil>x / b\<rceil>" arbitrary: x rule: less_induct)
  case less
  show ?case
  proof (cases "x > b")
    case False
    then show ?thesis using less.prems by (subst wrap_down.simps) simp
  next
    case True
    have lt: "nat \<lceil>(x - b) / b\<rceil> < nat \<lceil>x / b\<rceil>"
    proof -
      have "(x - b) / b = x / b - 1" using assms by (simp add: field_simps)
      then have "\<lceil>(x - b) / b\<rceil> = \<lceil>x / b\<rceil> - 1" by simp
      moreover have "0 < x / b" using True assms by (intro divide_pos_pos) auto
      then have "0 < \<lceil>x / b\<rceil>" by simp
      ultimately show ?thesis by simp
    qed
    have nn: "0 \<le> x - b" using True by simp
    from less.hyps [OF lt nn] obtain y where y: "wrap_down (x - b) b = Some y" "0 \<le> y" "y \<le> b"
      by blast
    have "wrap_down x b = Some y" using True y(1) by (subst wrap_down.simps) simp
    then show ?thesis using y True by simp
  qed
qed

lemma wrap_coord_total:
  assumes "0 < b"
  shows "\<exists>y. wrap_coord x b = Some y \<and> 0 \<le> y \<and> y \<le> b"
proof -
  obtain u where u: "wrap_up x b = Some u" "0 \<le> u" using wrap_up_total [OF assms, of x] by blast
  obtain y where y: "wrap_down u b = Some y" "0 \<le> y" "y \<le> b"
    using wrap_down_total [OF assms u(2)] by blast
  show ?thesis using u y by (simp add: wrap_coord_def)
qed

lemma wrap_row_total:
  assumes "\<forall>b \<in> set bs. 0 < b" "length p = length bs"
  shows "\<exists>q. wrap_row p bs = Some q \<and> length q = length p \<and>
           (\<forall>i < length q. 0 \<le> q ! i \<and> q ! i \<le> bs ! i)"
  using assms
proof (induction p bs rule: wrap_row.induct)
  case (3 x xs b bs)
  obtain y where y: "wrap_coord x b = Some y" "0 \<le> y" "y \<le> b"
    using wrap_coord_total [of b x] 3(2) by auto
  obtain q where q: "wrap_row xs bs = Some q" "length q = length xs"
     "\<forall>i < length q. 0 \<le> q ! i \<and> q ! i \<le> bs ! i"
    using 3(1) [OF y(1)] 3(2,3) by auto
  show ?case using y q by (auto simp: nth_Cons split: nat.splits)
qed auto

lemma impose_pbc_total:
  assumes "\<forall>b \<in> set boxsize. 0 < b" "\<forall>p \<in> set coords. length p = length boxsize"
  shows "\<exists>out. impose_pbc coords boxsize = Some out \<and> length out = length coords \<and>
           (\<forall>j < length out. length (out ! j) = length boxsize \<and>
              (\<forall>i < length boxsize. 0 \<le> out ! j ! i \<and> out ! j ! i \<le> boxsize ! i))"
  using assms(2)
proof (induction coords)
  case Nil
  then show ?case by simp
next
  case (Cons p ps)
  obtain q where q: "wrap_row p boxsize = Some q" "length q = length p"
     "\<forall>i < length q. 0 \<le> q ! i \<and> q ! i \<le> boxsize ! i"
    using wrap_row_total [OF assms(1), of p] Cons.prems by auto
  obtain out where out: "impose_pbc ps boxsize = Some out" "length out = length ps"
    "\<forall>j < length out. length (out ! j) = length boxsize \<and>
              (\<forall>i < length boxsize. 0 \<le> out ! j ! i \<and> out ! j ! i \<le> boxsize ! i)"
    using Cons by auto
  have "length p = length boxsize" using Cons.prems by simp
  then show ?case using q out by (auto simp: nth_Cons split: nat.splits)
qed

text \<open>
  C9. The normalisation is meant to bring every coordinate into \<open>[0, boxsize)\<close>, a
  coordinate on a box face included. The loop that subtracts the side length runs while
  \<^verbatim>\<open>p[i] > boxsize[i]\<close>, so a coordinate equal to the side length is kept as it is:
  with side 10, the row \<open>(10, 3)\<close> comes back unchanged, and its first component is
  not below the side length.
\<close>

theorem impose_pbc_keeps_upper_face:
  "impose_pbc [[10, 3]] [10, 10] = Some [[10, 3]]"
  by (simp add: wrap_coord_def wrap_up.simps wrap_down.simps)

subsection \<open>Structure factor transform\<close>

lemma collect_Inr: "collect (map (\<lambda>x. Inr (f x)) xs) = Inr (map f xs)"
  by (induction xs) auto

lemma map2_map_both: "map2 f (map g xs) (map h ys) = map2 (\<lambda>x y. f (g x) (h y)) xs ys"
proof (induction xs arbitrary: ys)
  case Nil
  show ?case by simp
next
  case (Cons x xs)
  then show ?case by (cases ys) simp_all
qed

lemma S_corr_spec:
  assumes "length gr = length r" and "prod_list boxsize \<noteq> 0" and "length boxsize = 3 \<longrightarrow> q \<noteq> 0"
  shows "S_corr simps jv gr r N boxsize q = Inr (Some (S_spec simps jv gr r N boxsize q))"
proof -
  have a: "map2 (*) (map (\<lambda>x. sin (q * x) * x) r) (map (\<lambda>x. x - 1) gr)
        = map2 (\<lambda>x g. x * sin (q * x) * (g - 1)) r gr"
    by (simp add: map2_map_both mult.commute)
  have b: "map2 (*) (map (\<lambda>x. jv 0 (q * x) * x) r) (map (\<lambda>x. x - 1) gr)
        = map2 (\<lambda>x g. x * jv 0 (q * x) * (g - 1)) r gr"
    by (simp add: map2_map_both mult.commute)
  show ?thesis using assms
    by (simp add: S_corr_def S_spec_def broadcast2_def spatial_def fdiv_def a b Let_def)
qed

lemma S_cloud_spec:
  assumes "length gr = length r" and "prod_list boxsize \<noteq> 0" and "length boxsize = 3 \<longrightarrow> q \<noteq> 0"
  shows "S_cloud simps jv gr r N boxsize q = Inr (Some (S_spec simps jv gr r N boxsize q))"
proof -
  have a: "map2 (*) (map (\<lambda>x. sin (q * x) * x) r) (map (\<lambda>x. x - 1) gr)
        = map2 (\<lambda>x g. x * sin (q * x) * (g - 1)) r gr"
    by (simp add: map2_map_both mult.commute)
  have b: "map2 (*) (map (\<lambda>x. jv 0 (q * x) * x) r) (map (\<lambda>x. x - 1) gr)
        = map2 (\<lambda>x g. x * jv 0 (q * x) * (g - 1)) r gr"
    by (simp add: map2_map_both mult.commute)
  show ?thesis using assms
    by (simp add: S_cloud_def S_spec_def broadcast2_def fdiv_def a b Let_def)
qed

text \<open>
  Outside the domain of the formula the value is not a number: at the wavenumber zero in
  three dimensions, where the code divides zero or the integral by zero, and for a box
  of volume zero.
\<close>

lemma S_zero_wavenumber:
  assumes "length gr = length r" and "length boxsize = 3"
  shows "S_corr simps jv gr r N boxsize 0 = Inr None"
    and "S_cloud simps jv gr r N boxsize 0 = Inr None"
  using assms
  by (simp_all add: S_corr_def S_cloud_def broadcast2_def fdiv_def Let_def
      split: option.splits)

lemma S_zero_volume:
  assumes "length gr = length r" and "prod_list boxsize = 0"
  shows "S_corr simps jv gr r N boxsize q = Inr None"
    and "S_cloud simps jv gr r N boxsize q = Inr None"
  using assms
  by (simp_all add: S_corr_def S_cloud_def broadcast2_def fdiv_def Let_def)

lemma zero_wavenumber_example:
  "fourier_corr arange simps jv [2, 3, 4] [1, 2, 3] 5 [1, 1, 1] (Some [0]) = Inr ([None], [0])"
  "structure_factor arange simps jv [2, 3, 4] [1, 2, 3] 5 [1, 1, 1] (Some [0]) = Inr ([None], [0])"
  by (simp_all add: fourier_corr_def structure_factor_def S_zero_wavenumber)

lemma default_q_grid:
  assumes "boxsize \<noteq> []" and "prod_list boxsize \<noteq> 0"
  shows "default_q arange boxsize =
           Inr (arange (2 * pi / Max (set boxsize)) (200 * (2 * pi / Max (set boxsize)))
                  (2 * pi / Max (set boxsize)))"
proof -
  obtain b bs where b: "boxsize = b # bs" using assms(1) by (cases boxsize) auto
  have m: "fold max (tl boxsize) (hd boxsize) = Max (set boxsize)"
    using Max.set_eq_fold [of b bs] b by simp
  have "Max (set boxsize) \<in> set boxsize" using assms(1) by (intro Max_in) auto
  moreover have "0 \<notin> set boxsize" using assms(2) by (auto simp: prod_list_zero_iff)
  ultimately have "Max (set boxsize) \<noteq> 0" by metis
  then show ?thesis by (simp add: default_q_def m Let_def)
qed

text \<open>
  C2. Given a correlation array sampled on the radii \<open>r\<close> and a box of two or three
  sides and of volume \<open>V\<close> other than zero, \<^verbatim>\<open>fourier_corr\<close> and \<^verbatim>\<open>structure_factor\<close>
  return the wavenumber grid \<open>q\<close>, the one supplied or by default the grid that
  \<^verbatim>\<open>np.arange\<close> makes of \<open>dq = 2 pi / max(boxsize)\<close>, and one value per wavenumber, in the
  same order: the value at \<open>q\<^sub>j\<close> is a number, the specification's formula \<open>S_spec\<close> at
  \<open>q\<^sub>j\<close>, computed from \<open>gr - 1\<close>, the density \<open>N / V\<close>, the quadrature and the Bessel
  function, and from no other wavenumber. In three dimensions, where the formula divides
  by \<open>q\<close>, the grid is to hold no wavenumber zero.
\<close>

theorem structure_factor_formula:
  assumes "length gr = length r" and "length boxsize = 2 \<or> length boxsize = 3"
      and "prod_list boxsize \<noteq> 0"
      and "q_opt = Some q \<or>
           q_opt = None \<and>
           q = arange (2 * pi / Max (set boxsize)) (200 * (2 * pi / Max (set boxsize)))
                 (2 * pi / Max (set boxsize))"
      and "length boxsize = 3 \<longrightarrow> 0 \<notin> set q"
  shows "fourier_corr arange simps jv gr r N boxsize q_opt =
           Inr (map (\<lambda>x. Some (S_spec simps jv gr r N boxsize x)) q, q) \<and>
         structure_factor arange simps jv gr r N boxsize q_opt =
           Inr (map (\<lambda>x. Some (S_spec simps jv gr r N boxsize x)) q, q)"
proof -
  have ne: "boxsize \<noteq> []" using assms(2) by auto
  have g: "(case q_opt of None \<Rightarrow> default_q arange boxsize | Some q \<Rightarrow> Inr q) = Inr q"
    using assms(4) default_q_grid [OF ne assms(3)] by auto
  have 1: "map (S_corr simps jv gr r N boxsize) q =
           map (\<lambda>x. Inr (Some (S_spec simps jv gr r N boxsize x))) q"
  proof (intro map_cong refl)
    fix x assume "x \<in> set q"
    then have "length boxsize = 3 \<longrightarrow> x \<noteq> 0" using assms(5) by auto
    then show "S_corr simps jv gr r N boxsize x = Inr (Some (S_spec simps jv gr r N boxsize x))"
      by (rule S_corr_spec [OF assms(1,3)])
  qed
  have 2: "map (S_cloud simps jv gr r N boxsize) q =
           map (\<lambda>x. Inr (Some (S_spec simps jv gr r N boxsize x))) q"
  proof (intro map_cong refl)
    fix x assume "x \<in> set q"
    then have "length boxsize = 3 \<longrightarrow> x \<noteq> 0" using assms(5) by auto
    then show "S_cloud simps jv gr r N boxsize x = Inr (Some (S_spec simps jv gr r N boxsize x))"
      by (rule S_cloud_spec [OF assms(1,3)])
  qed
  have c: "collect (map (\<lambda>x. Inr (Some (S_spec simps jv gr r N boxsize x))) q) =
           Inr (map (\<lambda>x. Some (S_spec simps jv gr r N boxsize x)) q)"
    by (rule collect_Inr)
  show ?thesis using assms(2)
    by (auto simp: fourier_corr_def structure_factor_def g 1 2 c)
qed

theorem structure_factor_formula_witness:
  "fourier_corr (\<lambda>a b c. [a, a + c]) (\<lambda>f x. sum_list f) (\<lambda>n x. 1) [3] [pi / 2] 1 [1, 1, 1] (Some [1, 2]) =
     Inr ([Some (1 + 4 * pi * pi), Some 1], [1, 2]) \<and>
   structure_factor (\<lambda>a b c. [a, a + c]) (\<lambda>f x. sum_list f) (\<lambda>n x. 1) [3] [pi / 2] 1 [1, 1, 1] (Some [1, 2]) =
     Inr ([Some (1 + 4 * pi * pi), Some 1], [1, 2]) \<and>
   fourier_corr (\<lambda>a b c. [a, a + c]) (\<lambda>f x. sum_list f) (\<lambda>n x. 1) [2] [1] 1 [1, 2] None =
     Inr ([Some (1 + pi), Some (1 + pi)], [pi, 2 * pi]) \<and>
   structure_factor (\<lambda>a b c. [a, a + c]) (\<lambda>f x. sum_list f) (\<lambda>n x. 1) [2] [1] 1 [1, 2] None =
     Inr ([Some (1 + pi), Some (1 + pi)], [pi, 2 * pi])"
proof -
  have m: "Max (set [1, 2::real]) = 2" by simp
  have a: "fourier_corr (\<lambda>a b c. [a, a + c]) (\<lambda>f x. sum_list f) (\<lambda>n x. 1) [3] [pi / 2] 1 [1, 1, 1] (Some [1, 2]) =
     Inr ([Some (1 + 4 * pi * pi), Some 1], [1, 2]) \<and>
   structure_factor (\<lambda>a b c. [a, a + c]) (\<lambda>f x. sum_list f) (\<lambda>n x. 1) [3] [pi / 2] 1 [1, 1, 1] (Some [1, 2]) =
     Inr ([Some (1 + 4 * pi * pi), Some 1], [1, 2])"
    using structure_factor_formula [where gr = "[3]" and r = "[pi / 2]" and boxsize = "[1, 1, 1]"
      and q_opt = "Some [1, 2]" and q = "[1, 2]" and arange = "\<lambda>a b c. [a, a + c]"
      and simps = "\<lambda>f x. sum_list f" and jv = "\<lambda>n x. 1" and N = 1]
    by (simp add: S_spec_def)
  have b: "fourier_corr (\<lambda>a b c. [a, a + c]) (\<lambda>f x. sum_list f) (\<lambda>n x. 1) [2] [1] 1 [1, 2] None =
     Inr ([Some (1 + pi), Some (1 + pi)], [pi, 2 * pi]) \<and>
   structure_factor (\<lambda>a b c. [a, a + c]) (\<lambda>f x. sum_list f) (\<lambda>n x. 1) [2] [1] 1 [1, 2] None =
     Inr ([Some (1 + pi), Some (1 + pi)], [pi, 2 * pi])"
    using structure_factor_formula [where gr = "[2]" and r = "[1]" and boxsize = "[1, 2]"
      and q_opt = None and q = "[pi, 2 * pi]" and arange = "\<lambda>a b c. [a, a + c]"
      and simps = "\<lambda>f x. sum_list f" and jv = "\<lambda>n x. 1" and N = 1]
    by (simp add: S_spec_def m)
  show ?thesis using a b by simp
qed

subsection \<open>Minimum-image displacement\<close>

lemma closest_point1d_three:
  "\<exists>pos ind. closest_point1d t [a, b, c] = Inr (pos, ind) \<and> ind < 3 \<and> pos = [a, b, c] ! ind \<and>
     pos \<in> {a, b, c} \<and> \<bar>pos - t\<bar> \<le> \<bar>a - t\<bar> \<and> \<bar>pos - t\<bar> \<le> \<bar>b - t\<bar> \<and> \<bar>pos - t\<bar> \<le> \<bar>c - t\<bar>"
  by (simp add: closest_point1d_def argmin_def Let_def)


lemma dot_sum: "dot a b = (\<Sum>i<length a. a ! i * b ! i)"
proof -
  have "\<And>acc. fold (\<lambda>i acc. acc + a ! i * b ! i) [0..<n] acc = acc + (\<Sum>i<n. a ! i * b ! i)" for n
    by (induction n) simp_all
  then show ?thesis by (simp add: dot_def)
qed

lemma collect_all_Inr:
  assumes "\<forall>x \<in> set xs. \<exists>v. f x = Inr v \<and> P x v"
  shows "\<exists>vs. collect (map f xs) = Inr vs \<and> length vs = length xs \<and>
           (\<forall>k < length xs. P (xs ! k) (vs ! k))"
  using assms
proof (induction xs)
  case Nil
  show ?case by simp
next
  case (Cons x xs)
  from Cons.prems obtain v where v: "f x = Inr v" "P x v" by auto
  from Cons obtain vs where vs: "collect (map f xs) = Inr vs" "length vs = length xs"
    "\<forall>k < length xs. P (xs ! k) (vs ! k)" by auto
  have "collect (map f (x # xs)) = Inr (v # vs)" using v(1) vs(1) by simp
  moreover have "\<forall>k < length (x # xs). P ((x # xs) ! k) ((v # vs) ! k)"
  proof (intro allI impI)
    fix k assume "k < length (x # xs)"
    then show "P ((x # xs) ! k) ((v # vs) ! k)" using v(2) vs(3) by (cases k) auto
  qed
  ultimately show ?case using vs(2) by (intro exI [of _ "v # vs"]) simp
qed

lemma axis_pick:
  "\<exists>pos. (case closest_point1d t [s, s - b, s + b] of
             Inl e \<Rightarrow> Inl e | Inr (pos, ind) \<Rightarrow> Inr pos) = Inr pos \<and> axis_ok t s b pos"
proof -
  obtain pos ind where p: "closest_point1d t [s, s - b, s + b] = Inr (pos, ind)"
    "pos \<in> {s, s - b, s + b}"
    "\<bar>pos - t\<bar> \<le> \<bar>s - t\<bar>" "\<bar>pos - t\<bar> \<le> \<bar>s - b - t\<bar>" "\<bar>pos - t\<bar> \<le> \<bar>s + b - t\<bar>"
    using closest_point1d_three [of t s "s - b" "s + b"] by blast
  have "axis_ok t s b pos" unfolding axis_ok_def using p(2-5) by blast
  then show ?thesis using p(1) by simp
qed

lemma closest_image_props:
  assumes "length source = length target"
  shows "\<exists>img. closest_image target source boxsize = Inr img \<and> length img = length target \<and>
     (\<forall>i < length target. axis_ok (target ! i) (source ! i) (boxsize ! i) (img ! i))"
proof -
  let ?f = "\<lambda>i. let pts = [source ! i, source ! i - boxsize ! i, source ! i + boxsize ! i]
             in case closest_point1d (target ! i) pts of
                  Inl e \<Rightarrow> Inl e
                | Inr (pos, ind) \<Rightarrow> Inr pos"
  have "\<forall>i \<in> set [0..<length target]. \<exists>v. ?f i = Inr v \<and>
          axis_ok (target ! i) (source ! i) (boxsize ! i) v"
    using axis_pick unfolding Let_def by blast
  from collect_all_Inr [of "[0..<length target]" ?f
      "\<lambda>i v. axis_ok (target ! i) (source ! i) (boxsize ! i) v", OF this]
  obtain vs where vs: "collect (map ?f [0..<length target]) = Inr vs"
    "length vs = length [0..<length target]"
    "\<forall>k < length [0..<length target].
        axis_ok (target ! ([0..<length target] ! k)) (source ! ([0..<length target] ! k))
          (boxsize ! ([0..<length target] ! k)) (vs ! k)" by blast
  have "closest_image target source boxsize = Inr vs"
    unfolding closest_image_def using assms vs(1) by simp
  moreover have "length vs = length target" using vs(2) by simp
  moreover have "\<forall>i < length target. axis_ok (target ! i) (source ! i) (boxsize ! i) (vs ! i)"
    using vs(3) by simp
  ultimately show ?thesis by blast
qed


text \<open>
  C3. For an ordered pair of particles at \<open>r_i\<close> and \<open>r_j\<close>, the displacement handed on
  to rotation and binning is \<open>r_j - r_i\<close> unchanged when its norm is below \<open>rmax\<close>, and
  otherwise \<open>img - r_i\<close>, where every coordinate of \<open>img\<close> is chosen on its own axis
  among the source coordinate and its translates by plus and minus the side length, as
  one that is closest to the target coordinate.
\<close>

theorem displacement_min_image:
  assumes "length r_j = length r_i"
  shows "\<exists>img. closest_image r_i r_j boxsize = Inr img \<and> length img = length r_i \<and>
           (\<forall>k < length r_i. axis_ok (r_i ! k) (r_j ! k) (boxsize ! k) (img ! k)) \<and>
           displacement r_i r_j boxsize rmax =
             Inr (if norm_v (vsub r_j r_i) < rmax then vsub r_j r_i else vsub img r_i)"
proof -
  from closest_image_props [OF assms, of boxsize] obtain img where
    img: "closest_image r_i r_j boxsize = Inr img" "length img = length r_i"
      "\<forall>i < length r_i. axis_ok (r_i ! i) (r_j ! i) (boxsize ! i) (img ! i)"
    by blast
  have "displacement r_i r_j boxsize rmax =
             Inr (if norm_v (vsub r_j r_i) < rmax then vsub r_j r_i else vsub img r_i)"
    using img(1) by (simp add: displacement_def Let_def not_less)
  then show ?thesis using img by blast
qed

theorem displacement_min_image_witness:
  "length [9, 2::real] = length [1, 1::real] \<and>
   closest_image [1, 1] [9, 2] [10, 10] = Inr [-1, 2] \<and>
   axis_ok 1 9 10 (-1) \<and> axis_ok 1 2 10 2 \<and>
   displacement [1, 1] [9, 2] [10, 10] 5 = Inr [-2, 1] \<and>
   displacement [1, 1] [3, 2] [10, 10] 5 = Inr [2, 1]"
proof -
  have i: "closest_image [1, 1] [9, 2] [10, 10] = Inr [-1, 2]"
    by (simp add: closest_image_def closest_point1d_def argmin_def)
  have n1: "\<not> norm_v (vsub [9, 2] [1, 1]) < 5"
    by (simp add: norm_v_def dot_def vsub_def not_less real_le_rsqrt)
  have n2: "norm_v (vsub [3, 2] [1, 1]) < 5"
    by (simp add: norm_v_def dot_def vsub_def real_less_lsqrt)
  have all: "\<forall>k < length [1, 1::real].
          axis_ok ([1, 1] ! k) ([9, 2] ! k) ([10, 10] ! k) ([-1, 2] ! k)"
    using displacement_min_image [of "[9, 2]" "[1, 1]" "[10, 10]" 5] i by simp
  have "axis_ok ([1, 1] ! 0) ([9, 2] ! 0) ([10, 10] ! 0) ([-1, 2] ! 0) \<and>
             axis_ok ([1, 1] ! 1) ([9, 2] ! 1) ([10, 10] ! 1) ([-1, 2] ! 1)"
    using all [rule_format, of 0] all [rule_format, of 1] by simp
  then have a: "axis_ok 1 9 10 (-1) \<and> axis_ok 1 2 10 2" by simp
  have d1: "displacement [1, 1] [9, 2] [10, 10] 5 = Inr [-2, 1]"
    using displacement_min_image [of "[9, 2]" "[1, 1]" "[10, 10]" 5] i n1
    by (simp add: vsub_def)
  have d2: "displacement [1, 1] [3, 2] [10, 10] 5 = Inr [2, 1]"
    using displacement_min_image [of "[3, 2]" "[1, 1]" "[10, 10]" 5] n2
    by (auto simp: vsub_def)
  show ?thesis using i a d1 d2 by simp
qed

subsection \<open>Rotation: where it aligns the orientation and where it does not\<close>

lemma unit_abs_le_1:
  fixes a b :: real
  assumes "a\<^sup>2 + b = 1" "0 \<le> b"
  shows "\<bar>a\<bar> \<le> 1"
proof -
  have "a\<^sup>2 \<le> 1" using assms by linarith
  then show ?thesis by (simp add: abs_square_le_1)
qed

lemma rotation_2d_aligns:
  assumes "x\<^sup>2 + y\<^sup>2 = 1" "0 \<le> x"
  shows "rotation_matrix [x, y] = Some [[y, - x], [x, y]] \<and>
         matvec [[y, - x], [x, y]] [x, y] = [0, 1]"
proof -
  have y1: "\<bar>y\<bar> \<le> 1" using unit_abs_le_1 [of y "x\<^sup>2"] assms(1) by simp
  have "sin (arccos y) = sqrt (1 - y\<^sup>2)" using y1 by (rule sin_arccos_abs)
  also have "1 - y\<^sup>2 = x\<^sup>2" using assms(1) by simp
  also have "sqrt (x\<^sup>2) = x" using assms(2) by simp
  finally have s: "sin (arccos y) = x" .
  have R: "rotation_matrix [x, y] = Some [[y, - x], [x, y]]"
    using y1 s by (simp add: rotation_matrix_def)
  have "y * x - x * y = 0" by simp
  moreover have "x * x + y * y = 1" using assms(1) by (simp add: power2_eq_square)
  ultimately have "matvec [[y, - x], [x, y]] [x, y] = [0, 1]"
    by (simp add: matvec_def dot_def)
  then show ?thesis using R by simp
qed

lemma rodrigues_matrix:
  "mat_add (mat_add eye3 (mat_scale n [[0, 0, b], [0, 0, - a], [- b, a, 0]]))
           (mat_scale m (matmul [[0, 0, b], [0, 0, - a], [- b, a, 0]]
                                [[0, 0, b], [0, 0, - a], [- b, a, 0]]))
   = [[1 + m * (- (b * b)), m * (b * a), n * b],
      [m * (a * b), 1 + m * (- (a * a)), n * (- a)],
      [n * (- b), n * a, 1 + m * (- (b * b) - a * a)]]"
  by (simp add: mat_add_def mat_scale_def matmul_def eye3_def dot_def)

lemma rodrigues_apply:
  fixes a b n z :: real
  assumes "a * a + b * b = 1" "n * n + z * z = 1"
  shows "matvec [[1 + (1 - z) * (- (b * b)), (1 - z) * (b * a), n * b],
      [(1 - z) * (a * b), 1 + (1 - z) * (- (a * a)), n * (- a)],
      [n * (- b), n * a, 1 + (1 - z) * (- (b * b) - a * a)]] [- (b * n), a * n, z] = [0, 0, 1]"
proof -
  have bb: "b * b = 1 - a * a" using assms(1) by simp
  have nn: "n * n = 1 - z * z" using assms(2) by simp
  have r0: "(1 + (1 - z) * (- (b * b))) * (- (b * n)) + (1 - z) * (b * a) * (a * n) + n * b * z = 0"
  proof -
    have "(1 + (1 - z) * (- (b * b))) * (- (b * n)) + (1 - z) * (b * a) * (a * n) + n * b * z
        = b * n * (1 - z) * ((a * a + b * b) - 1)" by (simp add: algebra_simps)
    then show ?thesis using assms(1) by simp
  qed
  have r1: "(1 - z) * (a * b) * (- (b * n)) + (1 + (1 - z) * (- (a * a))) * (a * n) + n * (- a) * z = 0"
  proof -
    have "(1 - z) * (a * b) * (- (b * n)) + (1 + (1 - z) * (- (a * a))) * (a * n) + n * (- a) * z
        = a * n * (1 - z) * (1 - (a * a + b * b))" by (simp add: algebra_simps)
    then show ?thesis using assms(1) by simp
  qed
  have r2: "n * (- b) * (- (b * n)) + n * a * (a * n) + (1 + (1 - z) * (- (b * b) - a * a)) * z = 1"
  proof -
    have "n * (- b) * (- (b * n)) + n * a * (a * n) + (1 + (1 - z) * (- (b * b) - a * a)) * z
        = (n * n) * (a * a + b * b) + z - (1 - z) * z * (a * a + b * b)" by (simp add: algebra_simps)
    also have "\<dots> = n * n + z * z" using assms(1) by (simp add: algebra_simps)
    finally show ?thesis using assms(2) by simp
  qed
  show ?thesis using r0 r1 r2 by (simp add: matvec_def dot_def)
qed


lemma rotation_3d_aligns:
  assumes "x\<^sup>2 + y\<^sup>2 + z\<^sup>2 = 1" "x \<noteq> 0 \<or> y \<noteq> 0"
  shows "\<exists>R. rotation_matrix [x, y, z] = Some R \<and> matvec R [x, y, z] = [0, 0, 1]"
proof -
  define n where "n = sqrt (y * y + x * x)"
  have pos: "0 < y * y + x * x"
  proof (cases "x = 0")
    case True
    then have "y \<noteq> 0" using assms(2) by simp
    then have "0 < y * y" by (auto simp: zero_less_mult_iff)
    then show ?thesis using True by simp
  next
    case False
    then have "0 < x * x" by (auto simp: zero_less_mult_iff)
    moreover have "0 \<le> y * y" by simp
    ultimately show ?thesis by linarith
  qed
  have npos: "0 < n" unfolding n_def using pos by simp
  have n2: "n * n = y * y + x * x" unfolding n_def using pos by simp
  define a where "a = y / n"
  define b where "b = - x / n"
  have ab: "a * a + b * b = 1"
  proof -
    have "a * a + b * b = (y * y + x * x) / (n * n)"
      by (simp add: a_def b_def add_divide_distrib)
    also have "\<dots> = (n * n) / (n * n)" using n2 by simp
    also have "\<dots> = 1" using npos by simp
    finally show ?thesis .
  qed
  have xe: "x = - (b * n)" using npos by (simp add: b_def)
  have ye: "y = a * n" using npos by (simp add: a_def)
  have nz: "n * n + z * z = 1" using assms(1) n2 by (simp add: power2_eq_square)
  have z1: "\<bar>z\<bar> \<le> 1" using unit_abs_le_1 [of z "n * n"] nz by (simp add: power2_eq_square)
  have "sin (arccos z) = sqrt (1 - z\<^sup>2)" using z1 by (rule sin_arccos_abs)
  also have "1 - z\<^sup>2 = y * y + x * x" using nz n2 by (simp add: power2_eq_square)
  finally have s: "sin (arccos z) = n" by (simp add: n_def)
  have nk: "norm_v [y, - x, 0] = n" by (simp add: norm_v_def dot_def n_def)
  have k: "map (\<lambda>v. v / n) [y, - x, 0] = [a, b, 0]" by (simp add: a_def b_def)
  have Rm: "rotation_matrix [x, y, z] =
      Some (mat_add (mat_add eye3 (mat_scale n [[0, 0, b], [0, 0, - a], [- b, a, 0]]))
           (mat_scale (1 - z) (matmul [[0, 0, b], [0, 0, - a], [- b, a, 0]]
                                [[0, 0, b], [0, 0, - a], [- b, a, 0]])))"
    using z1 s nk npos k by (simp add: rotation_matrix_def Let_def)
  have "matvec (mat_add (mat_add eye3 (mat_scale n [[0, 0, b], [0, 0, - a], [- b, a, 0]]))
           (mat_scale (1 - z) (matmul [[0, 0, b], [0, 0, - a], [- b, a, 0]]
                                [[0, 0, b], [0, 0, - a], [- b, a, 0]]))) [- (b * n), a * n, z]
        = [0, 0, 1]"
    unfolding rodrigues_matrix using rodrigues_apply [OF ab nz] .
  then show ?thesis using Rm xe ye by simp
qed

lemma rotate_identity_2d:
  "rotate_corr [0, 1] [u, v] = Some [u, v] \<and> rotate_cloud [0, 1] 2 [u, v] = Some [u, v]"
  by (simp add: rotate_corr_def rotate_cloud_def unit_vector_def rotation_matrix_def
      rotation_cloud_def norm_v_def dot_def matvec_def)

lemma rotate_identity_cloud_3d:
  "rotate_cloud [0, 0, 1] 3 [u, v, w] = Some [u, v, w]"
  by (simp add: rotate_cloud_def unit_vector_def rotation_cloud_def norm_v_def dot_def matvec_def)

text \<open>
  C4. The rotation is meant to map the unit orientation of a particle onto the reference
  axis, \<open>(0, 1)\<close> in two dimensions and \<open>(0, 0, 1)\<close> in three. The angle is taken as
  \<open>arccos\<close> of the last component, which loses its sign: in two dimensions the
  orientation \<open>(-1, 0)\<close> is mapped to \<open>(0, -1)\<close> by both modules, and the
  three-dimensional matrix of particle_cloud, a rotation about the z axis, maps
  \<open>(1, 0, 0)\<close> to \<open>(0, 1, 0)\<close>.
\<close>

theorem rotation_misses_reference_axis:
  "rotate_corr [-1, 0] [-1, 0] = Some [0, -1] \<and>
   rotate_cloud [-1, 0] 2 [-1, 0] = Some [0, -1] \<and>
   rotate_cloud [1, 0, 0] 3 [1, 0, 0] = Some [0, 1, 0]"
  by (simp add: rotate_corr_def rotate_cloud_def unit_vector_def rotation_matrix_def
      rotation_cloud_def norm_v_def dot_def matvec_def)

text \<open>
  C5. For an orientation equal to the reference axis the rotation should be the identity,
  with no NaN. In three dimensions \<^verbatim>\<open>_rotation_matrix\<close> divides the zero axis
  \<open>k = p \<times> z\<close> by its zero norm: the matrix, and with it every rotated displacement, is NaN.
\<close>

theorem rotation_degenerate_axis_nan:
  "rotate_corr [0, 0, 1] d = None"
  by (simp add: rotate_corr_def unit_vector_def rotation_matrix_def norm_v_def dot_def)

subsection \<open>The doubled pair list\<close>










subsection \<open>Binning and the sample count\<close>

lemma find_bin_less: "find_bin es v = Some k \<Longrightarrow> k < length es - 1"
proof (induction es v arbitrary: k rule: find_bin.induct)
  case (1 a b es v)
  show ?case
  proof (cases "a \<le> v \<and> (v < b \<or> (es = [] \<and> v = b))")
    case True
    then show ?thesis using 1 by simp
  next
    case False
    then obtain j where j: "find_bin (b # es) v = Some j" "k = Suc j" using 1(2) by auto
    from 1(1) [OF False j(1)] show ?thesis using j(2) by simp
  qed
qed simp_all

lemma find_bin_range:
  "sorted es \<Longrightarrow> find_bin es v \<noteq> None \<longleftrightarrow> 2 \<le> length es \<and> hd es \<le> v \<and> v \<le> last es"
proof (induction es v rule: find_bin.induct)
  case (1 a b es v)
  have ab: "a \<le> b" using 1(2) by simp
  have sb: "sorted (b # es)" using 1(2) by simp
  have bl: "b \<le> last (b # es)" using sb by (metis last_in_set list.discI list.set_intros(1) set_ConsD sorted_simps(2) order_refl)
  show ?case
  proof (cases "a \<le> v \<and> (v < b \<or> (es = [] \<and> v = b))")
    case True
    then have "v \<le> last (b # es)" using bl by auto
    then show ?thesis using True by simp
  next
    case False
    have ih: "find_bin (b # es) v \<noteq> None \<longleftrightarrow>
        2 \<le> length (b # es) \<and> hd (b # es) \<le> v \<and> v \<le> last (b # es)"
      using 1(1) [OF False sb] .
    show ?thesis
    proof (cases "es = []")
      case True
      then show ?thesis using False by auto
    next
      case ne: False
      then have "2 \<le> length (b # es)" by (cases es) simp_all
      then have "find_bin (b # es) v \<noteq> None \<longleftrightarrow> b \<le> v \<and> v \<le> last (b # es)"
        using ih by simp
      moreover have "find_bin (a # b # es) v = map_option Suc (find_bin (b # es) v)"
        using False by auto
      moreover have "a \<le> v \<and> v \<le> last (b # es) \<longleftrightarrow> b \<le> v \<and> v \<le> last (b # es)"
        using False ab ne by auto
      ultimately show ?thesis by simp
    qed
  qed
qed simp_all


lemma cell_of_in_cells: "cell_of bins row = Some c \<Longrightarrow> c \<in> set (cells bins)"
proof -
  have "cell_of bins row = Some c \<Longrightarrow> list_all2 (\<lambda>k e. k < length e - 1) c bins"
  proof (induction bins row arbitrary: c rule: cell_of.induct)
    case 1
    then show ?case by simp
  next
    case (2 e es x xs)
    from 2(2) obtain k where k: "bin_index e x = Some k"
      by (cases "bin_index e x") simp_all
    from 2(2) k obtain c' where c': "cell_of es xs = Some c'" "c = k # c'"
      by (cases "cell_of es xs") simp_all
    have "k < length e - 1"
      using k find_bin_less [of e _ k] by (cases x) (simp_all add: bin_index_def)
    then show ?case using 2(1) [OF k c'(1)] c'(2) by simp
  qed simp_all
  moreover assume "cell_of bins row = Some c"
  ultimately have "list_all2 (\<lambda>k e. k < length e - 1) c bins" by blast
  then have "list_all2 (\<lambda>x ys. x \<in> set ys) c (map (\<lambda>e. [0..<length e - 1]) bins)"
    by (simp add: list_all2_map2)
  then show ?thesis by (simp add: cells_def product_lists_set)
qed

lemma cell_of_domain:
  assumes "\<forall>e \<in> set bins. sorted e \<and> 2 \<le> length e"
  shows "cell_of bins row \<noteq> None \<longleftrightarrow> in_domain bins row"
  using assms
proof (induction bins row rule: cell_of.induct)
  case 1
  show ?case by (simp add: in_domain_def)
next
  case (2 e es x xs)
  have e: "sorted e" "2 \<le> length e" using 2(2) by simp_all
  have b: "bin_index e x \<noteq> None \<longleftrightarrow>
        (case x of None \<Rightarrow> False | Some v \<Rightarrow> hd e \<le> v \<and> v \<le> last e)"
    using find_bin_range [OF e(1)] e(2) by (cases x) (simp_all add: bin_index_def)
  show ?case
  proof (cases "bin_index e x")
    case None
    then show ?thesis using b by (simp add: in_domain_def)
  next
    case (Some k)
    have "cell_of es xs \<noteq> None \<longleftrightarrow> in_domain es xs" using 2(1) [OF Some] 2(2) by simp
    then show ?thesis using Some b by (simp add: in_domain_def)
  qed
qed (simp_all add: in_domain_def)

lemma sum_indicator:
  "distinct cs \<Longrightarrow>
   (\<Sum>c\<leftarrow>cs. if x = Some c then 1 else 0) = (if \<exists>c \<in> set cs. x = Some c then 1 else (0::real))"
  by (induction cs) auto

lemma distinct_cells: "distinct (cells bins)"
  unfolding cells_def by (rule distinct_product_lists) simp

lemma count_sum:
  "(\<Sum>c\<leftarrow>cells bins. real (length (filter (\<lambda>row. cell_of bins row = Some c) samples)))
     = real (length (filter (\<lambda>row. cell_of bins row \<noteq> None) samples))"
proof (induction samples)
  case Nil
  show ?case by simp
next
  case (Cons row rest)
  have one: "(\<Sum>c\<leftarrow>cells bins. if cell_of bins row = Some c then 1 else 0)
       = (if cell_of bins row \<noteq> None then 1 else (0::real))"
  proof -
    have "(\<exists>c \<in> set (cells bins). cell_of bins row = Some c) \<longleftrightarrow> cell_of bins row \<noteq> None"
      using cell_of_in_cells by auto
    then show ?thesis using sum_indicator [OF distinct_cells, of "cell_of bins row" bins] by simp
  qed
  have "(\<Sum>c\<leftarrow>cells bins. real (length (filter (\<lambda>r. cell_of bins r = Some c) (row # rest))))
      = (\<Sum>c\<leftarrow>cells bins. (if cell_of bins row = Some c then 1 else 0)
            + real (length (filter (\<lambda>r. cell_of bins r = Some c) rest)))"
    by (intro arg_cong [where f = sum_list] map_cong refl) simp
  also have "\<dots> = (\<Sum>c\<leftarrow>cells bins. if cell_of bins row = Some c then 1 else 0)
            + (\<Sum>c\<leftarrow>cells bins. real (length (filter (\<lambda>r. cell_of bins r = Some c) rest)))"
    by (simp add: sum_list_addf)
  finally show ?case using one Cons by simp
qed


lemma length_cells: "length (cells bins) = prod_list (map (\<lambda>e. length e - 1) bins)"
  unfolding cells_def
proof (induction bins)
  case Nil
  show ?case by simp
next
  case (Cons e es)
  have "length (concat (map (\<lambda>x. map ((#) x) (product_lists (map (\<lambda>e. [0..<length e - 1]) es))) xs))
        = length xs * length (product_lists (map (\<lambda>e. [0..<length e - 1]) es))" for xs :: "nat list"
    by (induction xs) simp_all
  then show ?case using Cons by simp
qed

lemma length_concat_const: "(\<forall>x \<in> set xss. length x = k) \<Longrightarrow> length (concat xss) = length xss * k"
  by (induction xss) simp_all

lemma length_volume:
  "length (concat (concat (get_volume c r p t d))) = (length r - 1) * (length p - 1) * (length t - 1)"
proof -
  have 1: "\<forall>x \<in> set (concat (get_volume c r p t d)). length x = length t - 1"
    by (auto simp: get_volume_def Let_def)
  have 2: "\<forall>x \<in> set (get_volume c r p t d). length x = length p - 1"
    by (auto simp: get_volume_def Let_def)
  have 3: "length (get_volume c r p t d) = length r - 1"
    by (simp add: get_volume_def)
  show ?thesis
    by (simp add: length_concat_const [OF 1] length_concat_const [OF 2] 3)
qed

lemma get_volume_count: "get_volume c r p t d = get_volume c' r p t d"
  by (simp add: get_volume_def)

lemma concat3_elem:
  "v \<in> set (concat (concat (map (\<lambda>n. map (\<lambda>m. map (\<lambda>l. F n m l) ls) ms) ns))) \<Longrightarrow>
   \<exists>n \<in> set ns. \<exists>m \<in> set ms. \<exists>l \<in> set ls. v = F n m l"
  by auto

lemma volume_cells:
  assumes "v \<in> set (concat (concat (get_volume c r p t d)))"
  shows "\<exists>n m l. n < length r - 1 \<and> m < length p - 1 \<and> l < length t - 1 \<and>
           v = (if d = 3
                then ((p ! (m + 1) - p ! m) * (((r ! (n + 1)) ^ d - (r ! n) ^ d) / real d)) *
                     (cos (t ! l) - cos (t ! (l + 1)))
                else (p ! (m + 1) - p ! m) * (((r ! (n + 1)) ^ d - (r ! n) ^ d) / real d))"
proof -
  from assms have "v \<in> set (concat (concat (map (\<lambda>n. map (\<lambda>m. map (\<lambda>l.
      if d = 3
      then ((p ! (m + 1) - p ! m) * (((r ! (n + 1)) ^ d - (r ! n) ^ d) / real d)) *
           (cos (t ! l) - cos (t ! (l + 1)))
      else (p ! (m + 1) - p ! m) * (((r ! (n + 1)) ^ d - (r ! n) ^ d) / real d))
      [0..<length t - 1]) [0..<length p - 1]) [0..<length r - 1])))"
    by (simp add: get_volume_def Let_def)
  from concat3_elem [OF this] obtain n m l where
    nml: "n \<in> set [0..<length r - 1]" "m \<in> set [0..<length p - 1]" "l \<in> set [0..<length t - 1]"
    and v: "v = (if d = 3
                then ((p ! (m + 1) - p ! m) * (((r ! (n + 1)) ^ d - (r ! n) ^ d) / real d)) *
                     (cos (t ! l) - cos (t ! (l + 1)))
                else (p ! (m + 1) - p ! m) * (((r ! (n + 1)) ^ d - (r ! n) ^ d) / real d))"
    by blast
  have "n < length r - 1" "m < length p - 1" "l < length t - 1" using nml by simp_all
  then show ?thesis using v by blast
qed

lemma strict_edges:
  assumes "sorted_wrt (<) (xs :: real list)" and "n < length xs - 1"
  shows "xs ! n < xs ! (n + 1)" and "hd xs \<le> xs ! n" and "xs ! (n + 1) \<le> last xs"
proof -
  have ne: "xs \<noteq> []" using assms(2) by auto
  show "xs ! n < xs ! (n + 1)" using sorted_wrt_nth_less [OF assms(1), of n "n + 1"] assms(2) by simp
  have s: "sorted xs" using assms(1) by (rule strict_sorted_imp_sorted)
  have "xs ! 0 \<le> xs ! n" using assms(2) by (intro sorted_nth_mono [OF s]) auto
  then show "hd xs \<le> xs ! n" using ne by (simp add: hd_conv_nth)
  have "xs ! (n + 1) \<le> xs ! (length xs - 1)" using assms(2) by (intro sorted_nth_mono [OF s]) auto
  then show "xs ! (n + 1) \<le> last xs" using ne by (simp add: last_conv_nth)
qed

lemma volume_pos:
  assumes "sorted_wrt (<) r" "sorted_wrt (<) p" "sorted_wrt (<) t"
      and "0 \<le> hd r" "0 \<le> hd t" "last t \<le> pi" and "d = 2 \<or> d = 3"
      and "v \<in> set (concat (concat (get_volume c r p t d)))"
  shows "0 < v"
proof -
  from volume_cells [OF assms(8)] obtain n m l where
    n: "n < length r - 1" and m: "m < length p - 1" and l: "l < length t - 1" and
    v: "v = (if d = 3
                then ((p ! (m + 1) - p ! m) * (((r ! (n + 1)) ^ d - (r ! n) ^ d) / real d)) *
                     (cos (t ! l) - cos (t ! (l + 1)))
                else (p ! (m + 1) - p ! m) * (((r ! (n + 1)) ^ d - (r ! n) ^ d) / real d))" by blast
  have dp: "0 < p ! (m + 1) - p ! m" using strict_edges(1) [OF assms(2) m] by simp
  have rn: "0 \<le> r ! n" "r ! n < r ! (n + 1)"
    using strict_edges(1,2) [OF assms(1) n] assms(4) by simp_all
  have d: "0 < d" using assms(7) by auto
  then have "(r ! n) ^ d < (r ! (n + 1)) ^ d" using rn by (intro power_strict_mono) auto
  then have dr: "0 < ((r ! (n + 1)) ^ d - (r ! n) ^ d) / real d" using d by simp
  have tl: "0 \<le> t ! l" "t ! l < t ! (l + 1)" "t ! (l + 1) \<le> pi"
    using strict_edges [OF assms(3) l] assms(5,6) by simp_all
  have "cos (t ! (l + 1)) < cos (t ! l)" using tl by (intro cos_monotone_0_pi) auto
  then have dt: "0 < cos (t ! l) - cos (t ! (l + 1))" by simp
  have a: "0 < (p ! (m + 1) - p ! m) * (((r ! (n + 1)) ^ d - (r ! n) ^ d) / real d)"
    using dp dr by (rule mult_pos_pos)
  show ?thesis
  proof (cases "d = 3")
    case True
    then show ?thesis using v mult_pos_pos [OF a dt] by simp
  next
    case False
    then show ?thesis using v a by simp
  qed
qed

lemma scaled_sum:
  fixes cs vs :: "real list"
  assumes "length cs = length vs" and "\<forall>v \<in> set vs. f v \<noteq> 0"
  shows "(\<Sum>gv \<leftarrow> zip (map2 (\<lambda>c v. c / f v) cs vs) vs. fst gv * f (snd gv)) = sum_list cs"
  using assms by (induction cs vs rule: list_induct2) simp_all

lemma normalise_defined:
  assumes "length count = length (concat (concat (get_volume count r_n phi_m theta_l (length boxsize))))"
      and "0 < N" and "prod_list boxsize \<noteq> 0"
      and "\<forall>v \<in> set (concat (concat (get_volume count r_n phi_m theta_l (length boxsize)))). v \<noteq> 0"
  shows "normalise count N boxsize r_n phi_m theta_l =
           Inr (map Some (map2 (\<lambda>c v. c / (real N * v * (real N / prod_list boxsize))) count
                  (concat (concat (get_volume count r_n phi_m theta_l (length boxsize))))))"
proof -
  define vol where "vol = concat (concat (get_volume count r_n phi_m theta_l (length boxsize)))"
  have nz: "\<forall>v \<in> set vol. v \<noteq> 0" using assms(4) unfolding vol_def .
  have len: "length count = length vol" using assms(1) unfolding vol_def .
  have "map2 (\<lambda>c v. if prod_list boxsize = 0 then (if N = 0 \<or> v = 0 then None else Some 0)
                      else fdiv c (real N * v * (real N / prod_list boxsize))) count vol
      = map2 (\<lambda>c v. Some (c / (real N * v * (real N / prod_list boxsize)))) count vol"
  proof (intro map_cong refl)
    fix cv assume "cv \<in> set (zip count vol)"
    then have "snd cv \<in> set vol" using set_zip_rightD [of "fst cv" "snd cv" count vol] by simp
    then have "snd cv \<noteq> 0" using nz by blast
    then show "(case cv of (c, v) \<Rightarrow>
                 if prod_list boxsize = 0 then (if N = 0 \<or> v = 0 then None else Some 0)
                 else fdiv c (real N * v * (real N / prod_list boxsize))) =
               (case cv of (c, v) \<Rightarrow> Some (c / (real N * v * (real N / prod_list boxsize))))"
      using assms(2,3) by (cases cv) (simp add: fdiv_def)
  qed
  also have "\<dots> = map Some (map2 (\<lambda>c v. c / (real N * v * (real N / prod_list boxsize))) count vol)"
    by (simp add: case_prod_beta)
  finally have "map2 (\<lambda>c v. if prod_list boxsize = 0 then (if N = 0 \<or> v = 0 then None else Some 0)
                      else fdiv c (real N * v * (real N / prod_list boxsize))) count vol
      = map Some (map2 (\<lambda>c v. c / (real N * v * (real N / prod_list boxsize))) count vol)" .
  then show ?thesis using len unfolding vol_def by (simp add: normalise_def Let_def)
qed

lemma histogram_total:
  assumes "\<forall>e \<in> set bins. sorted e \<and> 2 \<le> length e"
      and "\<forall>row \<in> set samples. length row = length bins"
  shows "\<exists>count. histogramdd samples bins None = Some count \<and>
           length count = prod_list (map (\<lambda>e. length e - 1) bins) \<and>
           sum_list count = real (length (filter (in_domain bins) samples))"
proof -
  define count where
    "count = map (\<lambda>c. real (length (filter (\<lambda>row. cell_of bins row = Some c) samples))) (cells bins)"
  have h: "histogramdd samples bins None = Some count"
    using assms(2) by (simp add: histogramdd_def count_def)
  have l: "length count = prod_list (map (\<lambda>e. length e - 1) bins)"
    by (simp add: count_def length_cells)
  have "filter (\<lambda>row. cell_of bins row \<noteq> None) samples = filter (in_domain bins) samples"
    using cell_of_domain [OF assms(1)] by simp
  then have s: "sum_list count = real (length (filter (in_domain bins) samples))"
    using count_sum [of bins samples] by (simp add: count_def)
  show ?thesis using h l s by blast
qed

lemma distribution_total:
  assumes shape: "prod_list (map (\<lambda>e. length e - 1) bins) =
                    (length r_n - 1) * (length phi_m - 1) * (length theta_l - 1)"
      and bins: "\<forall>e \<in> set bins. sorted e \<and> 2 \<le> length e"
      and rows: "\<forall>row \<in> set samples. length row = length bins"
      and incr: "sorted_wrt (<) r_n" "sorted_wrt (<) phi_m" "sorted_wrt (<) theta_l"
      and rng: "0 \<le> hd r_n" "0 \<le> hd theta_l" "last theta_l \<le> pi"
      and box: "length boxsize = 2 \<or> length boxsize = 3" "prod_list boxsize \<noteq> 0" "0 < N"
  shows "\<exists>count g. histogramdd samples bins None = Some count \<and>
           sum_list count = real (length (filter (in_domain bins) samples)) \<and>
           normalise count N boxsize r_n phi_m theta_l = Inr (map Some g) \<and>
           (\<Sum>gv \<leftarrow> zip g (concat (concat (get_volume [] r_n phi_m theta_l (length boxsize)))).
               fst gv * (real N * snd gv * (real N / prod_list boxsize)))
             = real (length (filter (in_domain bins) samples))"
proof -
  from histogram_total [OF bins rows] obtain count where
    h: "histogramdd samples bins None = Some count" and
    l: "length count = prod_list (map (\<lambda>e. length e - 1) bins)" and
    s: "sum_list count = real (length (filter (in_domain bins) samples))" by blast
  define vol where "vol = concat (concat (get_volume [] r_n phi_m theta_l (length boxsize)))"
  have vc: "concat (concat (get_volume count r_n phi_m theta_l (length boxsize))) = vol"
    unfolding vol_def using get_volume_count [of count r_n phi_m theta_l "length boxsize" "[]"] by simp
  have len: "length count = length vol"
    using l shape by (simp add: vol_def length_volume)
  have pos: "\<forall>v \<in> set vol. 0 < v"
    unfolding vol_def using volume_pos [OF incr rng box(1)] by blast
  then have nz: "\<forall>v \<in> set vol. v \<noteq> 0" by auto
  define f where "f = (\<lambda>v. real N * v * (real N / prod_list boxsize))"
  have fnz: "\<forall>v \<in> set vol. f v \<noteq> 0" using nz box(2,3) by (simp add: f_def)
  define g where "g = map2 (\<lambda>c v. c / f v) count vol"
  have n: "normalise count N boxsize r_n phi_m theta_l = Inr (map Some g)"
    using normalise_defined [of count r_n phi_m theta_l boxsize N] len nz box(2,3)
    unfolding vc g_def f_def by simp
  have "(\<Sum>gv \<leftarrow> zip g vol. fst gv * f (snd gv)) = sum_list count"
    unfolding g_def using scaled_sum [OF len fnz] .
  then have "(\<Sum>gv \<leftarrow> zip g vol. fst gv * (real N * snd gv * (real N / prod_list boxsize)))
               = real (length (filter (in_domain bins) samples))"
    using s by (simp add: f_def)
  then show ?thesis using h s n unfolding vol_def by blast
qed

lemma rows_of_transpose:
  assumes "\<forall>xs \<in> set xss. length xs = n"
  shows "\<forall>row \<in> set (transpose xss). length row = length xss"
proof (cases "xss = []")
  case True
  then show ?thesis by simp
next
  case False
  have "transpose xss = map (\<lambda>i. map (\<lambda>j. xss ! j ! i) [0..<length xss]) [0..<n]"
    using assms False by (intro transpose_rectangle) auto
  then show ?thesis by auto
qed

lemma ex_volume:
  "get_volume c [2, 7/2, 5] [- pi, pi] [0, pi] (Suc (Suc 0)) = [[[33 * pi / 4]], [[51 * pi / 4]]]"
  by (simp add: get_volume_def Let_def numeral_2_eq_2 power2_eq_square field_simps)

lemma ex_histogram:
  "histogramdd [[Some 1], [Some 3], [Some 5]] [[2, 7/2, 5]] None = Some [1, 1]"
  by (simp add: histogramdd_def cells_def bin_index_def)

lemma ex_normalise:
  "normalise [1, 1] 2 [10, 10] [2, 7/2, 5] [- pi, pi] [0, pi]
     = Inr [Some (100 / (33 * pi)), Some (100 / (51 * pi))]"
  by (simp add: normalise_def ex_volume fdiv_def Let_def field_simps)

lemma ex_dist1:
  "get_distribution_corr histogramdd [[Some 1], [Some 3], [Some 5]] [] 2 [10, 10]
      [2, 7/2, 5] [- pi, pi] [0, pi] = Inr [Some (100 / (33 * pi)), Some (100 / (51 * pi))]"
  using ex_histogram ex_normalise by (simp add: get_distribution_corr_def)

lemma ex_dist2:
  "get_distribution_cloud histogramdd [Some 1, Some 3, Some 5] [Some 0] [Some 0] 2 [10, 10]
      [2, 7/2, 5] [- pi, pi] [0, pi] = Inr [Some (100 / (33 * pi)), Some (100 / (51 * pi))]"
proof -
  have t: "transpose [[Some 1, Some 3, Some (5::real)]] = [[Some 1], [Some 3], [Some 5]]"
    by simp
  show ?thesis using ex_histogram ex_normalise t by (simp add: get_distribution_cloud_def)
qed


text \<open>
  The edges that \<^verbatim>\<open>corr\<close> and \<^verbatim>\<open>sdf\<close> make from \<open>0 \<le> rmin < rmax\<close> and at least one
  bin on every axis increase strictly, with radial edges that are not negative and
  polar edges from zero to \<open>pi\<close>.
\<close>

lemma linspace_edges:
  assumes "1 \<le> n" and "a < b"
  shows "\<exists>es. linspace a b (n + 1) = Some es \<and> 2 \<le> length es \<and> sorted_wrt (<) es \<and>
           hd es = a \<and> last es = b"
proof -
  define f where "f = (\<lambda>k. a + real k * ((b - a) / real_of_int n))"
  define es where "es = map f [0..<nat (n + 1)]"
  have l: "linspace a b (n + 1) = Some es"
    using assms(1) by (simp add: linspace_def es_def f_def)
  have st: "0 < (b - a) / real_of_int n" using assms by simp
  have mono: "i < j \<Longrightarrow> f i < f j" for i j
  proof -
    assume "i < j"
    then have "real i < real j" by simp
    then have "real i * ((b - a) / real_of_int n) < real j * ((b - a) / real_of_int n)"
      using st by (rule mult_strict_right_mono)
    then show "f i < f j" unfolding f_def by simp
  qed
  have "sorted_wrt (\<lambda>i j. f i < f j) [0..<nat (n + 1)]"
    by (rule sorted_wrt_mono_rel [where P = "(<)"]) (auto simp: mono)
  then have s: "sorted_wrt (<) es" by (simp add: es_def sorted_wrt_map)
  have len: "length es = nat n + 1" using assms(1) by (simp add: es_def nat_add_distrib)
  have h: "hd es = a" using len by (simp add: es_def f_def hd_map upt_conv_Cons nat_add_distrib)
  have "last es = f (nat n)" using assms(1) by (simp add: es_def nat_add_distrib)
  also have "\<dots> = b" using assms(1) by (simp add: f_def)
  finally have la: "last es = b" .
  have "2 \<le> length es" using len assms(1) by simp
  then show ?thesis using l s h la by blast
qed

lemma bin_edges_configuration:
  assumes "0 \<le> rmin" and "rmin < rmax" and "1 \<le> nr" and "1 \<le> nphi" and "1 \<le> ntheta"
  shows "\<exists>r_n phi_m theta_l. bin_edges rmin rmax nr nphi ntheta = Inr (r_n, phi_m, theta_l) \<and>
           2 \<le> length r_n \<and> 2 \<le> length phi_m \<and> 2 \<le> length theta_l \<and>
           sorted_wrt (<) r_n \<and> sorted_wrt (<) phi_m \<and> sorted_wrt (<) theta_l \<and>
           0 \<le> hd r_n \<and> 0 \<le> hd theta_l \<and> last theta_l \<le> pi"
proof -
  obtain r_n where r: "linspace rmin rmax (nr + 1) = Some r_n" "2 \<le> length r_n"
      "sorted_wrt (<) r_n" "hd r_n = rmin"
    using linspace_edges [OF assms(3,2)] by blast
  obtain u where u: "linspace 0 1 (nphi + 1) = Some u" "2 \<le> length u" "sorted_wrt (<) u"
    using linspace_edges [OF assms(4), of 0 1] by auto
  obtain v where v: "linspace 0 1 (ntheta + 1) = Some v" "2 \<le> length v" "sorted_wrt (<) v"
      "hd v = 0" "last v = 1"
    using linspace_edges [OF assms(5), of 0 1] by auto
  have ne: "v \<noteq> []" using v(2) by auto
  have b: "bin_edges rmin rmax nr nphi ntheta =
             Inr (r_n, map (\<lambda>x. 2 * pi * x - pi) u, map (\<lambda>x. pi * x) v)"
    using r(1) u(1) v(1) by (simp add: bin_edges_def)
  have sp: "sorted_wrt (<) (map (\<lambda>x. 2 * pi * x - pi) u)"
    unfolding sorted_wrt_map by (rule sorted_wrt_mono_rel [OF _ u(3)]) simp
  have sv: "sorted_wrt (<) (map (\<lambda>x. pi * x) v)"
    unfolding sorted_wrt_map by (rule sorted_wrt_mono_rel [OF _ v(3)]) simp
  have hv: "hd (map (\<lambda>x. pi * x) v) = 0" using ne v(4) by (simp add: hd_map)
  have lv: "last (map (\<lambda>x. pi * x) v) = pi" using ne v(5) by (simp add: last_map)
  show ?thesis using b r u(2) v(2) sp sv hv lv assms(1) by simp
qed

text \<open>
  C8, as amended. Take a bin configuration with strictly increasing edges on every axis,
  radial edges that are not negative and polar edges between zero and \<open>pi\<close>, a box of
  two or three sides and of volume other than zero, and at least one particle. In both
  modules \<^verbatim>\<open>_get_distribution\<close> then returns a grid of numbers, and for the unweighted
  histogram the count summed over all cells is the number of samples whose coordinates
  all lie inside the binned range of their axis, the right edge of the last bin
  included; summing \<open>g * N * density * cell volume\<close> over all cells gives the same
  number. A sample outside the binned range is in no cell, so that this number is the
  number of ordered pair samples only when all of them lie inside the range.
\<close>

theorem histogram_counts_samples_in_domain:
  fixes r_n phi_m theta_l boxsize :: "real list" and N n :: nat
  assumes edges: "2 \<le> length r_n" "2 \<le> length phi_m" "2 \<le> length theta_l"
      and incr: "sorted_wrt (<) r_n" "sorted_wrt (<) phi_m" "sorted_wrt (<) theta_l"
      and rng: "0 \<le> hd r_n" "0 \<le> hd theta_l" "last theta_l \<le> pi"
      and box: "length boxsize = 2 \<or> length boxsize = 3" "prod_list boxsize \<noteq> 0" "0 < N"
      and bins: "bins = filter (\<lambda>b. length b > 2) [r_n, phi_m, theta_l]"
      and rij: "\<forall>row \<in> set rij. length row = length bins" "length wiwj \<le> 1"
      and sb: "sb = filter (\<lambda>sb. length (fst sb) > 1) [(r, r_n), (phi, phi_m), (theta, theta_l)]"
      and coords: "\<forall>se \<in> set [(r, r_n), (phi, phi_m), (theta, theta_l)].
                     length (fst se) = n \<and> 1 < n \<or> length (fst se) \<le> 1 \<and> length (snd se) = 2"
      and vol: "vol = concat (concat (get_volume [] r_n phi_m theta_l (length boxsize)))"
  shows "(\<exists>count g. histogramdd rij bins None = Some count \<and>
            sum_list count = real (length (filter (in_domain bins) rij)) \<and>
            get_distribution_corr histogramdd rij wiwj N boxsize r_n phi_m theta_l = Inr (map Some g) \<and>
            (\<Sum>gv \<leftarrow> zip g vol. fst gv * (real N * snd gv * (real N / prod_list boxsize)))
              = real (length (filter (in_domain bins) rij))) \<and>
         (\<exists>count g. histogramdd (transpose (map fst sb)) (map snd sb) None = Some count \<and>
            sum_list count = real (length (filter (in_domain (map snd sb)) (transpose (map fst sb)))) \<and>
            get_distribution_cloud histogramdd r phi theta N boxsize r_n phi_m theta_l = Inr (map Some g) \<and>
            (\<Sum>gv \<leftarrow> zip g vol. fst gv * (real N * snd gv * (real N / prod_list boxsize)))
              = real (length (filter (in_domain (map snd sb)) (transpose (map fst sb)))))"
proof
  have srt: "sorted r_n" "sorted phi_m" "sorted theta_l"
    using incr by (auto intro: strict_sorted_imp_sorted)
  have shape: "prod_list (map (\<lambda>e. length e - 1) bins) =
                 (length r_n - 1) * (length phi_m - 1) * (length theta_l - 1)"
    using edges by (auto simp: bins)
  have ok: "\<forall>e \<in> set bins. sorted e \<and> 2 \<le> length e"
    using srt by (auto simp: bins)
  from distribution_total [OF shape ok rij(1) incr rng box]
  obtain count g where
    c: "histogramdd rij bins None = Some count"
       "sum_list count = real (length (filter (in_domain bins) rij))"
       "normalise count N boxsize r_n phi_m theta_l = Inr (map Some g)"
       "(\<Sum>gv \<leftarrow> zip g vol. fst gv * (real N * snd gv * (real N / prod_list boxsize)))
          = real (length (filter (in_domain bins) rij))"
    unfolding vol by blast
  have "get_distribution_corr histogramdd rij wiwj N boxsize r_n phi_m theta_l = Inr (map Some g)"
    unfolding get_distribution_corr_def Let_def bins [symmetric] using c(1,3) rij(2) by simp
  then show "\<exists>count g. histogramdd rij bins None = Some count \<and>
            sum_list count = real (length (filter (in_domain bins) rij)) \<and>
            get_distribution_corr histogramdd rij wiwj N boxsize r_n phi_m theta_l = Inr (map Some g) \<and>
            (\<Sum>gv \<leftarrow> zip g vol. fst gv * (real N * snd gv * (real N / prod_list boxsize)))
              = real (length (filter (in_domain bins) rij))"
    using c by blast
next
  have srt: "sorted r_n" "sorted phi_m" "sorted theta_l"
    using incr by (auto intro: strict_sorted_imp_sorted)
  have shape: "prod_list (map (\<lambda>e. length e - 1) (map snd sb)) =
                 (length r_n - 1) * (length phi_m - 1) * (length theta_l - 1)"
    using coords by (auto simp: sb)
  have ok: "\<forall>e \<in> set (map snd sb). sorted e \<and> 2 \<le> length e"
    using srt edges by (auto simp: sb)
  have "\<forall>xs \<in> set (map fst sb). length xs = n" using coords by (auto simp: sb)
  then have "\<forall>row \<in> set (transpose (map fst sb)). length row = length (map fst sb)"
    by (rule rows_of_transpose)
  then have rows: "\<forall>row \<in> set (transpose (map fst sb)). length row = length (map snd sb)"
    by simp
  from distribution_total [OF shape ok rows incr rng box]
  obtain count g where
    c: "histogramdd (transpose (map fst sb)) (map snd sb) None = Some count"
       "sum_list count = real (length (filter (in_domain (map snd sb)) (transpose (map fst sb))))"
       "normalise count N boxsize r_n phi_m theta_l = Inr (map Some g)"
       "(\<Sum>gv \<leftarrow> zip g vol. fst gv * (real N * snd gv * (real N / prod_list boxsize)))
          = real (length (filter (in_domain (map snd sb)) (transpose (map fst sb))))"
    unfolding vol by blast
  have "get_distribution_cloud histogramdd r phi theta N boxsize r_n phi_m theta_l = Inr (map Some g)"
    unfolding get_distribution_cloud_def Let_def sb [symmetric] using c(1,3) by simp
  then show "\<exists>count g. histogramdd (transpose (map fst sb)) (map snd sb) None = Some count \<and>
            sum_list count = real (length (filter (in_domain (map snd sb)) (transpose (map fst sb)))) \<and>
            get_distribution_cloud histogramdd r phi theta N boxsize r_n phi_m theta_l = Inr (map Some g) \<and>
            (\<Sum>gv \<leftarrow> zip g vol. fst gv * (real N * snd gv * (real N / prod_list boxsize)))
              = real (length (filter (in_domain (map snd sb)) (transpose (map fst sb))))"
    using c by blast
qed

theorem histogram_counts_samples_in_domain_witness:
  "filter (in_domain [[2, 7/2, 5]]) [[Some 1], [Some 3], [Some 5]] = [[Some 3], [Some 5]] \<and>
   histogramdd [[Some 1], [Some 3], [Some 5]] [[2, 7/2, 5]] None = Some [1, 1] \<and>
   get_distribution_corr histogramdd [[Some 1], [Some 3], [Some 5]] [] 2 [10, 10]
      [2, 7/2, 5] [- pi, pi] [0, pi] = Inr [Some (100 / (33 * pi)), Some (100 / (51 * pi))] \<and>
   get_distribution_cloud histogramdd [Some 1, Some 3, Some 5] [Some 0] [Some 0] 2 [10, 10]
      [2, 7/2, 5] [- pi, pi] [0, pi] = Inr [Some (100 / (33 * pi)), Some (100 / (51 * pi))] \<and>
   concat (concat (get_volume [] [2, 7/2, 5] [- pi, pi] [0, pi] (length [10, 10::real])))
     = [33 * pi / 4, 51 * pi / 4] \<and>
   (\<Sum>gv \<leftarrow> zip [100 / (33 * pi), 100 / (51 * pi)] [33 * pi / 4, 51 * pi / 4].
       fst gv * (real 2 * snd gv * (real 2 / prod_list [10, 10]))) = 2"
proof -
  let ?rij = "[[Some 1], [Some 3], [Some (5::real)]]"
  let ?r = "[Some 1, Some 3, Some (5::real)]"
  let ?rn = "[2, 7/2, 5::real]"
  let ?vol = "concat (concat (get_volume [] ?rn [- pi, pi] [0, pi] (length [10, 10::real])))"
  have d: "filter (in_domain [?rn]) ?rij = [[Some 3], [Some 5]]"
    by (simp add: in_domain_def)
  have len: "real (length (filter (in_domain [?rn]) ?rij)) = 2"
    by (simp add: in_domain_def)
  have ve: "?vol = [33 * pi / 4, 51 * pi / 4]" by (simp add: ex_volume)
  have e: "2 \<le> length ?rn" "2 \<le> length [- pi, pi]" "2 \<le> length [0, pi]" by simp_all
  have i: "sorted_wrt (<) ?rn" "sorted_wrt (<) [- pi, pi]" "sorted_wrt (<) [0, pi]" by simp_all
  have g: "0 \<le> hd ?rn" "0 \<le> hd [0, pi]" "last [0, pi] \<le> pi" by simp_all
  have b: "length [10, 10::real] = 2 \<or> length [10, 10::real] = 3" "prod_list [10, 10::real] \<noteq> 0"
    "0 < (2::nat)" by simp_all
  have bn: "[?rn] = filter (\<lambda>b. length b > 2) [?rn, [- pi, pi], [0, pi]]" by simp
  have rw: "\<forall>row \<in> set ?rij. length row = length [?rn]" "length ([]::real list) \<le> 1" by simp_all
  have sb: "[(?r, ?rn)] = filter (\<lambda>sb. length (fst sb) > 1)
              [(?r, ?rn), ([Some 0], [- pi, pi]), ([Some 0], [0, pi])]" by simp
  have co: "\<forall>se \<in> set [(?r, ?rn), ([Some 0], [- pi, pi]), ([Some 0], [0, pi])].
              length (fst se) = 3 \<and> 1 < (3::nat) \<or> length (fst se) \<le> 1 \<and> length (snd se) = 2"
    by simp
  have vl: "?vol = concat (concat (get_volume [] ?rn [- pi, pi] [0, pi] (length [10, 10::real])))"
    by simp
  from histogram_counts_samples_in_domain [OF e i g b bn rw sb co vl]
  obtain g where
    1: "get_distribution_corr histogramdd ?rij [] 2 [10, 10] ?rn [- pi, pi] [0, pi] = Inr (map Some g)"
    and 2: "(\<Sum>gv \<leftarrow> zip g ?vol. fst gv * (real 2 * snd gv * (real 2 / prod_list [10, 10])))
              = real (length (filter (in_domain [?rn]) ?rij))"
    by blast
  have "map Some g = [Some (100 / (33 * pi)), Some (100 / (51 * pi))]"
    using 1 ex_dist1 by simp
  then have ge: "g = [100 / (33 * pi), 100 / (51 * pi)]" by (auto simp: map_eq_Cons_conv)
  have s: "(\<Sum>gv \<leftarrow> zip [100 / (33 * pi), 100 / (51 * pi)] [33 * pi / 4, 51 * pi / 4].
       fst gv * (real 2 * snd gv * (real 2 / prod_list [10, 10]))) = 2"
    using 2 unfolding ge ve len .
  show ?thesis using d ex_histogram ex_dist1 ex_dist2 ve s by blast
qed

text \<open>
  Two particles at distance 1 in a box of side 10, with \<open>rmin = 2\<close>, \<open>rmax = 5\<close> and two
  radial bins: both ordered samples have \<open>r = 1\<close>, below the first edge, and the count
  grid is empty.
\<close>

theorem binning_drops_samples_below_rmin:
  "get_displacements_corr (replicate 2 [Some 0]) [] [(0, 1)]
      \<lparr>ncols = 2, rows = [[1, 1], [2, 1]]\<rparr> (zeros2 1 2) 1 (zeros2 1 2) [10, 10] 5 2 1 1
    = Inr ([[Some 1], [Some 1]], []) \<and>
   histogramdd [[Some 1], [Some 1]] [[2, 7/2, 5]] None = Some [0, 0] \<and>
   sum_list [0, 0] \<noteq> real (length [[Some (1::real)], [Some 1]]) \<and>
   corr (\<lambda>c b r. Some [(0, 1)]) histogramdd
     \<lparr>positions = \<lparr>ncols = 2, rows = [[1, 1], [2, 1]]\<rparr>, orientations = None, weights = None\<rparr>
     [10, 10] 1 (Some 2) (Some 5) (Some 2) None None
   = Some (Inr ([Some 0, Some 0], [2, 7/2], [- pi], None),
       \<lparr>positions = \<lparr>ncols = 2, rows = [[1, 1], [2, 1]]\<rparr>, orientations = None, weights = None\<rparr>)"
proof -
  have p: "impose_pbc [[1, 1], [2, 1]] [10, 10] = Some [[1, 1], [2, 1]]"
    by (simp add: wrap_coord_def wrap_up.simps wrap_down.simps)
  have d: "get_displacements_corr (replicate 2 [Some 0]) [] [(0, 1)]
      \<lparr>ncols = 2, rows = [[1, 1], [2, 1]]\<rparr> (zeros2 1 2) 1 (zeros2 1 2) [10, 10] 5 2 1 1
    = Inr ([[Some 1], [Some 1]], [])"
    by (simp add: get_displacements_corr_def sample_corr_def shape_def zeros2_def displacement_def
      vsub_def norm_v_def dot_def r_coord_def numeral_2_eq_2)
  have e: "bin_edges 2 5 2 1 1 = Inr ([2, 7/2, 5], [- pi, pi], [0, pi])"
    by (simp add: bin_edges_def linspace_def numeral_2_eq_2 numeral_3_eq_3)
  have h: "histogramdd [[Some 1], [Some 1]] [[2, 7/2, 5]] None = Some [0, 0]"
    by (simp add: histogramdd_def cells_def bin_index_def)
  have n: "normalise [0, 0] (Suc (Suc 0)) [10, 10] [2, 7/2, 5] [- pi, pi] [0, pi] = Inr [Some 0, Some 0]"
    by (simp add: normalise_def get_volume_def fdiv_def Let_def)
  have g: "get_distribution_corr histogramdd [[Some 1], [Some 1]] [] (Suc (Suc 0)) [10, 10]
          [2, 7/2, 5] [- pi, pi] [0, pi] = Inr [Some 0, Some 0]"
    using h n by (simp add: get_distribution_corr_def)
  have c: "corr_compute (\<lambda>c b r. Some [(0, 1)]) histogramdd \<lparr>ncols = 2, rows = [[1, 1], [2, 1]]\<rparr>
       (zeros2 1 2) 1 (zeros2 1 2) [10, 10] 2 5 2 1 1 = Inr ([Some 0, Some 0], [2, 7/2], [- pi], None)"
    using d e g by (simp add: corr_compute_def get_pairs_corr_def zeros2_def)
  have "corr (\<lambda>c b r. Some [(0, 1)]) histogramdd
     \<lparr>positions = \<lparr>ncols = 2, rows = [[1, 1], [2, 1]]\<rparr>, orientations = None, weights = None\<rparr>
     [10, 10] 1 (Some 2) (Some 5) (Some 2) None None
   = Some (Inr ([Some 0, Some 0], [2, 7/2], [- pi], None),
       \<lparr>positions = \<lparr>ncols = 2, rows = [[1, 1], [2, 1]]\<rparr>, orientations = None, weights = None\<rparr>)"
    using p c by (simp add: corr_def default_rmax_def bin_count_def)
  then show ?thesis using d h by simp
qed

subsection \<open>Zero pairs\<close>

lemma corr_compute_zero_pairs:
  "query_pairs (rows r) boxsize rmax = Some [] \<Longrightarrow>
   corr_compute query_pairs hist r w z p boxsize rmin rmax nr nphi ntheta = Inl ZeroPairsError"
  by (simp add: corr_compute_def get_pairs_corr_def)

lemma sdf_compute_zero_pairs:
  "query_pairs (rows r) boxsize rmax = Some [] \<Longrightarrow>
   sdf_compute query_pairs hist r p boxsize rmin rmax nr nphi ntheta =
     (case bin_edges rmin rmax nr nphi ntheta of
        Inl e \<Rightarrow> Inl e
      | Inr (r_n, phi_m, theta_l) \<Rightarrow>
         (case hist [] [] None of
            None \<Rightarrow> Inl LibraryError
          | Some count \<Rightarrow>
             (case normalise count (length (rows r)) boxsize r_n phi_m theta_l of
                Inl e \<Rightarrow> Inl e
              | Inr g \<Rightarrow> Inr (g, butlast r_n, butlast phi_m,
                              if ncols r = 3 then Some (butlast theta_l) else None))))"
  by (simp add: sdf_compute_def get_pairs_cloud_def get_displacements_cloud_def
      get_distribution_cloud_def Let_def split: sum.splits option.splits prod.splits)

lemma collect_Inl: "collect xs = Inl e \<Longrightarrow> Inl e \<in> set xs"
  by (induction xs) (auto split: sum.splits)

lemma closest_point1d_error: "closest_point1d t ps = Inl e \<Longrightarrow> e = LibraryError"
  by (auto simp: closest_point1d_def argmin_def Let_def split: list.splits sum.splits)

lemma closest_image_error:
  assumes "closest_image target source boxsize = Inl e"
  shows "e = AssertionError \<or> e = LibraryError"
proof (cases "length source \<noteq> length target")
  case True
  then show ?thesis using assms by (simp add: closest_image_def)
next
  case False
  let ?f = "\<lambda>i. case closest_point1d (target ! i)
               [source ! i, source ! i - boxsize ! i, source ! i + boxsize ! i] of
                  Inl e \<Rightarrow> (Inl e :: real result)
                | Inr (pos, ind) \<Rightarrow> Inr pos"
  have "collect (map ?f [0..<length target]) = Inl e"
    using assms False by (simp add: closest_image_def Let_def)
  then have "Inl e \<in> set (map ?f [0..<length target])" by (rule collect_Inl)
  then obtain i where "?f i = Inl e" by auto
  then have "e = LibraryError"
    using closest_point1d_error by (auto split: sum.splits prod.splits)
  then show ?thesis by simp
qed

lemma displacement_error:
  "displacement r_i r_j boxsize rmax = Inl e \<Longrightarrow> e = AssertionError \<or> e = LibraryError"
  using closest_image_error
  by (auto simp: displacement_def Let_def split: if_splits sum.splits)

lemma get_displacements_cloud_error:
  assumes "get_displacements_cloud r p pairs boxsize rmax nr nphi ntheta = Inl e"
  shows "e = AssertionError \<or> e = LibraryError"
proof -
  have "collect (map (sample_cloud r p boxsize rmax) pairs) = Inl e"
    using assms by (auto simp: get_displacements_cloud_def split: sum.splits)
  then have "Inl e \<in> set (map (sample_cloud r p boxsize rmax) pairs)"
    by (rule collect_Inl)
  then obtain pair where "sample_cloud r p boxsize rmax pair = Inl e" by auto
  then show ?thesis
    using displacement_error
    by (fastforce simp: sample_cloud_def Let_def split: sum.splits if_splits)
qed

lemma bin_edges_error: "bin_edges rmin rmax nr nphi ntheta = Inl e \<Longrightarrow> e = LibraryError"
  by (auto simp: bin_edges_def split: option.splits)

lemma normalise_error:
  "normalise count N boxsize r_n phi_m theta_l = Inl e \<Longrightarrow> e = BroadcastError"
  by (auto simp: normalise_def Let_def split: if_splits)

lemma get_distribution_cloud_error:
  "get_distribution_cloud hist r phi theta N boxsize r_n phi_m theta_l = Inl e \<Longrightarrow>
     e = LibraryError \<or> e = BroadcastError"
  using normalise_error
  by (auto simp: get_distribution_cloud_def Let_def split: option.splits)

lemma sdf_compute_never_zero_pairs:
  "sdf_compute query_pairs hist r p boxsize rmin rmax nr nphi ntheta \<noteq> Inl ZeroPairsError"
proof
  assume a: "sdf_compute query_pairs hist r p boxsize rmin rmax nr nphi ntheta = Inl ZeroPairsError"
  show False
  proof (cases "get_pairs_cloud query_pairs (rows r) boxsize rmax")
    case (Inl e)
    then have "e = LibraryError" by (auto simp: get_pairs_cloud_def split: option.splits)
    then show False using a Inl by (simp add: sdf_compute_def)
  next
    case pairs: (Inr pairs)
    show False
    proof (cases "get_displacements_cloud r p pairs boxsize rmax nr nphi ntheta")
      case (Inl e)
      then have "e = AssertionError \<or> e = LibraryError"
        by (rule get_displacements_cloud_error)
      then show False using a pairs Inl by (auto simp: sdf_compute_def)
    next
      case d: (Inr d)
      obtain rs phi theta where dd: "d = (rs, phi, theta)" by (cases d) auto
      show False
      proof (cases "bin_edges rmin rmax nr nphi ntheta")
        case (Inl e)
        then have "e = LibraryError" by (rule bin_edges_error)
        then show False using a pairs d dd Inl by (simp add: sdf_compute_def)
      next
        case b: (Inr b)
        obtain r_n phi_m theta_l where bb: "b = (r_n, phi_m, theta_l)" by (cases b) auto
        show False
        proof (cases "get_distribution_cloud hist rs phi theta (length (rows r)) boxsize
                        r_n phi_m theta_l")
          case (Inl e)
          then have "e = LibraryError \<or> e = BroadcastError"
            by (rule get_distribution_cloud_error)
          then show False using a pairs d dd b bb Inl by (auto simp: sdf_compute_def)
        next
          case (Inr g)
          then show False using a pairs d dd b bb by (simp add: sdf_compute_def)
        qed
      qed
    qed
  qed
qed

lemma sdf_never_zero_pairs:
  "sdf query_pairs hist s boxsize rmin rmax nr nphi ntheta \<noteq> Some (Inl ZeroPairsError, s')"
  using sdf_compute_never_zero_pairs
  by (auto simp: sdf_def default_rmax_def Let_def split: if_splits option.splits sum.splits list.splits)


text \<open>
  C7. With no pair inside the cutoff, both entry points should fail with the zero-pairs
  condition before any grid is made. \<^verbatim>\<open>corr\<close> does. \<^verbatim>\<open>sdf\<close> has no such test: for two
  particles farther apart than \<open>rmax\<close> it goes on to the histogram routine with no
  sample and no bin, and its outcome is whatever that routine and the normalisation make
  of them, an error of the library or a grid, never the zero-pairs condition.
\<close>

theorem zero_pairs_only_corr_reports:
  "corr (\<lambda>c b r. Some []) hist
     \<lparr>positions = \<lparr>ncols = 2, rows = [[1, 1], [6, 6]]\<rparr>, orientations = None, weights = None\<rparr>
     [10, 10] 1 None (Some 1) (Some 2) None None
   = Some (Inl ZeroPairsError,
       \<lparr>positions = \<lparr>ncols = 2, rows = [[1, 1], [6, 6]]\<rparr>, orientations = None, weights = None\<rparr>) \<and>
   sdf (\<lambda>c b r. Some []) hist
     \<lparr>positions = \<lparr>ncols = 2, rows = [[1, 1], [6, 6]]\<rparr>, orientations = None, weights = None\<rparr>
     [10, 10] None (Some 1) 2 None None
   = Some (case hist [] [] None of
             None \<Rightarrow> Inl LibraryError
           | Some count \<Rightarrow>
               (case normalise count 2 [10, 10] [0, 1/2, 1] [- pi, pi] [0, pi] of
                  Inl e \<Rightarrow> Inl e
                | Inr g \<Rightarrow> Inr (g, [0, 1/2], [- pi], None)),
       \<lparr>positions = \<lparr>ncols = 2, rows = [[1, 1], [6, 6]]\<rparr>, orientations = None, weights = None\<rparr>)"
proof -
  have p: "impose_pbc [[1, 1], [6, 6]] [10, 10] = Some [[1, 1], [6, 6]]"
    by (simp add: wrap_coord_def wrap_up.simps wrap_down.simps)
  have e: "bin_edges 0 1 2 1 1 = Inr ([0, 1/2, 1], [- pi, pi], [0, pi])"
    by (simp add: bin_edges_def linspace_def numeral_2_eq_2 numeral_3_eq_3)
  have c: "corr_compute (\<lambda>c b r. Some []) hist \<lparr>ncols = 2, rows = [[1, 1], [6, 6]]\<rparr>
       (zeros2 1 2) 1 (zeros2 1 2) [10, 10] 0 1 2 1 1 = Inl ZeroPairsError"
    by (rule corr_compute_zero_pairs) simp
  have s: "sdf_compute (\<lambda>c b r. Some []) hist \<lparr>ncols = 2, rows = [[1, 1], [6, 6]]\<rparr> None
       [10, 10] 0 1 2 1 1 =
     (case hist [] [] None of
             None \<Rightarrow> Inl LibraryError
           | Some count \<Rightarrow>
               (case normalise count 2 [10, 10] [0, 1/2, 1] [- pi, pi] [0, pi] of
                  Inl e \<Rightarrow> Inl e
                | Inr g \<Rightarrow> Inr (g, [0, 1/2], [- pi], None)))"
    using e by (cases "hist [] [] None")
      (simp_all add: sdf_compute_zero_pairs numeral_2_eq_2 split: sum.splits)
  have 1: "corr (\<lambda>c b r. Some []) hist
     \<lparr>positions = \<lparr>ncols = 2, rows = [[1, 1], [6, 6]]\<rparr>, orientations = None, weights = None\<rparr>
     [10, 10] 1 None (Some 1) (Some 2) None None
   = Some (Inl ZeroPairsError,
       \<lparr>positions = \<lparr>ncols = 2, rows = [[1, 1], [6, 6]]\<rparr>, orientations = None, weights = None\<rparr>)"
    using p c by (simp add: corr_def default_rmax_def bin_count_def)
  have 2: "sdf (\<lambda>c b r. Some []) hist
     \<lparr>positions = \<lparr>ncols = 2, rows = [[1, 1], [6, 6]]\<rparr>, orientations = None, weights = None\<rparr>
     [10, 10] None (Some 1) 2 None None
   = Some (case hist [] [] None of
             None \<Rightarrow> Inl LibraryError
           | Some count \<Rightarrow>
               (case normalise count 2 [10, 10] [0, 1/2, 1] [- pi, pi] [0, pi] of
                  Inl e \<Rightarrow> Inl e
                | Inr g \<Rightarrow> Inr (g, [0, 1/2], [- pi], None)),
       \<lparr>positions = \<lparr>ncols = 2, rows = [[1, 1], [6, 6]]\<rparr>, orientations = None, weights = None\<rparr>)"
    using p s by (simp add: sdf_def default_rmax_def)
  show ?thesis using 1 2 by (rule conjI)
qed


subsection \<open>What a call does to the caller's arrays\<close>



















end
